theory Spec2Isabelle
  imports Complex_Main "HOL-Library.Word" "HOL-Library.AList" "HOL-Library.Sublist"
begin

section \<open>Data model of model\_downloader.py\<close>

text \<open>
  Python's unbounded integers are \<open>int\<close>; its floats are modelled by exact reals, so
  rounding of floating-point arithmetic is outside this development. What is modelled
  of the float range is the \<open>OverflowError\<close> that Python raises when the resolved
  remote size, a number that a header supplies, is too large for a float. The counter
  \<open>downloaded\<close> numbers bytes that are on disk or were received; such a count is
  taken to be inside the float range. File contents and network chunks are lists of
  bytes. A string is a list of characters with codes 0 to 255, which is what a header
  value decoded as Latin-1 is. A path is a string.
\<close>

type_synonym byte = "8 word"
type_synonym bytes = "byte list"
type_synonym path = string
type_synonym headers = "(string \<times> string) list"

text \<open>The dataclass \<open>ModelInfo\<close> (lines 31-42).\<close>

record ModelInfo =
  repo_id :: string
  filename :: string
  display_name :: string
  size_gb :: real
  quantization :: string

definition get_download_url :: "ModelInfo \<Rightarrow> string" where
  "get_download_url m =
     ''https://huggingface.co/'' @ repo_id m @ ''/resolve/main/'' @ filename m"

text \<open>
  Exceptions. The source raises plain \<open>Exception\<close> objects that differ by their message;
  each message is a constructor here, and a message that embeds the text of the
  exception it wraps carries that exception.
\<close>

datatype exn =
    RequestException
  | ValueError
  | ZeroDivisionError
  | OverflowError
  | TypeError
  | FileNotFoundError
  | Could_not_get_remote_file_size exn
  | Could_not_determine_remote_file_size
  | Download_incomplete int int
  | Download_failed exn
  | Download_error exn
  | File_not_downloaded
  | Unknown_model string

text \<open>
  The messages handed to the progress callback. The numeric fields hold the values
  that the f-strings format; the rounding done by the format specifiers is not modelled.
\<close>

datatype eta = Eta_minutes real | Eta_seconds real

datatype message =
    Starting_download string
  | Model_already_downloaded path
  | Existing_file_incomplete
  | Resuming_from_byte int
  | Progress real real real
  | Progress_speed real real real real eta
  | Download_complete path

datatype open_mode = WB | AB

text \<open>Every observable effect of the downloader is one event of a trace.\<close>

datatype event =
    NetHead string
  | NetGet string headers
  | FileExists path
  | FileStat path
  | FileUnlink path
  | FileOpen path open_mode
  | FileWrite path bytes
  | FileClose path
  | FileRename path path
  | FileRead path
  | ClockRead
  | Callback real message

text \<open>
  The mutable world: the files on disk, the trace of effects so far, the three
  progress-tracking attributes of the downloader object (lines 101-103), and two ghost
  logs: every value assigned to the local variable \<open>downloaded\<close> of \<open>download\<close>,
  and the arguments \<open>(downloaded, total, speed)\<close> of every call of
  \<open>_report_progress\<close>.
\<close>

record state =
  files :: "path \<rightharpoonup> bytes"
  trace :: "event list"
  last_progress_time :: real
  last_downloaded_bytes :: int
  start_time :: "real option"
  downloaded_log :: "int list"
  report_log :: "(int \<times> int \<times> real) list"

text \<open>
  What the outside world answers: the response to the HEAD request of
  \<open>get_remote_size\<close>, the response to the HEAD request of \<open>check_resume_support\<close>,
  the response to the GET request (which may depend on the request headers), and the
  clock. A streamed response is the list of chunks that \<open>iter_content\<close> yields, each
  with the value \<open>time.time()\<close> returns after that chunk was written, and the way the
  stream finishes.
\<close>

datatype head_result =
    Head_raises
  | Head_ok (content_length: "string option") (accept_ranges: "string option")

datatype stream_end = Stream_ends | Stream_raises

datatype get_result =
    Get_raises
  | Get_ok "(bytes \<times> real) list" stream_end

record environment =
  size_probe :: head_result
  range_probe :: head_result
  get_response :: "headers \<Rightarrow> get_result"
  time_at_start :: real

text \<open>The attributes \<open>__init__\<close> fixes (lines 89-98).\<close>

record downloader =
  model_info :: ModelInfo
  output_dir :: path
  final_path :: path
  temp_path :: path

text \<open>
  Paths are \<open>pathlib\<close> paths on a POSIX system, kept as the string that \<open>str\<close> gives.
  \<open>Path s\<close> keeps the root of \<open>s\<close> (\<open>//\<close> for exactly two leading slashes, \<open>/\<close> for any
  other number of them), drops the empty parts and the parts \<open>.\<close>, and joins the rest
  with single slashes; the path without root and parts is \<open>.\<close>. The operator \<open>/\<close> of
  \<open>pathlib\<close> is \<open>path_join\<close>: a name that starts with a slash replaces the directory.
\<close>

fun str_split :: "char \<Rightarrow> string \<Rightarrow> string list" where
  "str_split sep [] = [[]]"
| "str_split sep (c # cs) =
     (if c = sep then [] # str_split sep cs
      else (case str_split sep cs of [] \<Rightarrow> [[c]] | part # parts \<Rightarrow> (c # part) # parts))"

fun str_join :: "string \<Rightarrow> string list \<Rightarrow> string" where
  "str_join sep [] = []"
| "str_join sep [x] = x"
| "str_join sep (x # y # ys) = x @ sep @ str_join sep (y # ys)"

definition posixpath_join :: "string \<Rightarrow> string \<Rightarrow> string" where
  "posixpath_join a b =
     (if b \<noteq> [] \<and> hd b = CHR ''/'' then b
      else if a = [] \<or> last a = CHR ''/'' then a @ b
      else a @ ''/'' @ b)"

definition path_root :: "string \<Rightarrow> string" where
  "path_root s =
     (if take 2 s = ''//'' \<and> take 3 s \<noteq> ''///'' then ''//''
      else if take 1 s = ''/'' then ''/'' else [])"

definition path_parts :: "string \<Rightarrow> string list" where
  "path_parts s = filter (\<lambda>x. x \<noteq> [] \<and> x \<noteq> ''.'') (str_split CHR ''/'' s)"

definition path_str :: "string \<Rightarrow> string list \<Rightarrow> path" where
  "path_str anchor parts =
     (if anchor = [] \<and> parts = [] then ''.'' else anchor @ str_join ''/'' parts)"

definition Path :: "string \<Rightarrow> path" where
  "Path s = path_str (path_root s) (path_parts s)"

definition path_join :: "path \<Rightarrow> string \<Rightarrow> path" where
  "path_join dir name = Path (posixpath_join dir name)"

definition ModelDownloader_init :: "ModelInfo \<Rightarrow> path \<Rightarrow> downloader" where
  "ModelDownloader_init mi dir =
     \<lparr> model_info = mi,
       output_dir = Path dir,
       final_path = path_join dir (filename mi),
       temp_path = path_join dir (filename mi @ ''.download'') \<rparr>"

definition initial_state :: "(path \<rightharpoonup> bytes) \<Rightarrow> state" where
  "initial_state fs =
     \<lparr> files = fs, trace = [], last_progress_time = 0, last_downloaded_bytes = 0,
       start_time = None, downloaded_log = [], report_log = [] \<rparr>"

definition emit :: "event \<Rightarrow> state \<Rightarrow> state" where
  "emit e st = st\<lparr>trace := trace st @ [e]\<rparr>"

definition progress_callback :: "real \<Rightarrow> message \<Rightarrow> state \<Rightarrow> state" where
  "progress_callback percent msg st = emit (Callback percent msg) st"

definition assign_downloaded :: "int \<Rightarrow> state \<Rightarrow> state" where
  "assign_downloaded v st = st\<lparr>downloaded_log := downloaded_log st @ [v]\<rparr>"

definition log_report :: "int \<Rightarrow> int \<Rightarrow> real \<Rightarrow> state \<Rightarrow> state" where
  "log_report downloaded total_size speed st =
     st\<lparr>report_log := report_log st @ [(downloaded, total_size, speed)]\<rparr>"

section \<open>Python primitives\<close>

text \<open>True division of floats raises on a zero divisor.\<close>

definition py_truediv :: "real \<Rightarrow> real \<Rightarrow> exn + real" where
  "py_truediv a b = (if b = 0 then Inl ZeroDivisionError else Inr (a / b))"

text \<open>
  The largest float is \<open>2^1024 - 2^971\<close>. A number whose absolute value reaches the
  midpoint between it and \<open>2^1024\<close> has no float: converting such an integer to a
  float raises \<open>OverflowError\<close>, and so does the true division of two integers whose
  quotient is that large.
\<close>

definition float_limit :: real where
  "float_limit = 2 ^ 1024 - 2 ^ 970"

definition py_float :: "int \<Rightarrow> exn + real" where
  "py_float n = (if \<bar>of_int n\<bar> \<ge> float_limit then Inl OverflowError else Inr (of_int n))"

definition py_int_truediv :: "int \<Rightarrow> int \<Rightarrow> exn + real" where
  "py_int_truediv a b =
     (if b = 0 then Inl ZeroDivisionError
      else if \<bar>of_int a / of_int b\<bar> \<ge> float_limit then Inl OverflowError
      else Inr (of_int a / of_int b))"

text \<open>
  \<open>int(s)\<close> on a string: surrounding whitespace is stripped, one sign is allowed,
  then decimal digits, where single underscores may separate digits. Header values are
  Latin-1 strings: among the characters with a code up to 255, \<open>int\<close> strips 9 to 13,
  32, 133 and 160, and the only decimal digits are \<open>0\<close> to \<open>9\<close>. A string of more than
  4300 digits is refused (the default limit of CPython 3.11).
\<close>

definition is_space :: "char \<Rightarrow> bool" where
  "is_space c = (of_char c \<in> {9, 10, 11, 12, 13, 32, 133, 160 :: nat})"

definition is_digit :: "char \<Rightarrow> bool" where
  "is_digit c = (48 \<le> (of_char c :: nat) \<and> (of_char c :: nat) \<le> 57)"

definition digit_value :: "char \<Rightarrow> int" where
  "digit_value c = int (of_char c) - 48"

fun parse_digits :: "string \<Rightarrow> int \<Rightarrow> int option" where
  "parse_digits [] acc = Some acc"
| "parse_digits (c # cs) acc =
     (if is_digit c then parse_digits cs (acc * 10 + digit_value c)
      else if c = CHR ''_'' then
        (case cs of
           [] \<Rightarrow> None
         | d # ds \<Rightarrow> if is_digit d then parse_digits cs acc else None)
      else None)"

definition max_str_digits :: nat where
  "max_str_digits = 4300"

definition parse_unsigned :: "string \<Rightarrow> int option" where
  "parse_unsigned s =
     (case s of
        [] \<Rightarrow> None
      | c # cs \<Rightarrow>
          if \<not> is_digit c then None
          else if length (filter is_digit s) > max_str_digits then None
          else parse_digits s 0)"

definition strip :: "string \<Rightarrow> string" where
  "strip s = rev (dropWhile is_space (rev (dropWhile is_space s)))"

definition py_int :: "string \<Rightarrow> int option" where
  "py_int s =
     (case strip s of
        [] \<Rightarrow> None
      | c # cs \<Rightarrow>
          if c = CHR ''-'' then map_option uminus (parse_unsigned cs)
          else if c = CHR ''+'' then parse_unsigned cs
          else parse_unsigned (c # cs))"

text \<open>\<open>str(n)\<close> for an integer, as the f-string of the Range header prints it.\<close>

fun str_nat :: "nat \<Rightarrow> string" where
  "str_nat n =
     (if n < 10 then [''0123456789'' ! n]
      else str_nat (n div 10) @ [''0123456789'' ! (n mod 10)])"

definition str_int :: "int \<Rightarrow> string" where
  "str_int i = (if i < 0 then CHR ''-'' # str_nat (nat (- i)) else str_nat (nat i))"

section \<open>Progress reporting (lines 110-125)\<close>

definition progress_percent :: "int \<Rightarrow> int \<Rightarrow> exn + real" where
  "progress_percent downloaded total_size =
     (if total_size > 0 then
        (case py_truediv (of_int downloaded) (of_int total_size) of
           Inl e \<Rightarrow> Inl e
         | Inr q \<Rightarrow> Inr (q * 100))
      else Inr 0)"

text \<open>
  Lines 115-123. The operands \<open>total\<close> and \<open>total - downloaded\<close> are integers: the
  division of line 116 is a division of two integers, and in line 119 the integer is
  converted to a float first.
\<close>

definition progress_message :: "real \<Rightarrow> int \<Rightarrow> int \<Rightarrow> real \<Rightarrow> exn + message" where
  "progress_message percent downloaded total_size speed =
     (case py_truediv (of_int downloaded) (1024 * 1024) of
        Inl e \<Rightarrow> Inl e
      | Inr downloaded_mb \<Rightarrow>
     (case py_int_truediv total_size (1024 * 1024) of
        Inl e \<Rightarrow> Inl e
      | Inr total_mb \<Rightarrow>
          if speed > 0 then
            (case py_float (total_size - downloaded) of
               Inl e \<Rightarrow> Inl e
             | Inr remaining \<Rightarrow>
            (case py_truediv remaining (speed * 1024 * 1024) of
               Inl e \<Rightarrow> Inl e
             | Inr eta_seconds \<Rightarrow>
                 if eta_seconds > 60 then
                   (case py_truediv eta_seconds 60 of
                      Inl e \<Rightarrow> Inl e
                    | Inr minutes \<Rightarrow>
                        Inr (Progress_speed percent downloaded_mb total_mb speed
                               (Eta_minutes minutes)))
                 else
                   Inr (Progress_speed percent downloaded_mb total_mb speed
                          (Eta_seconds eta_seconds))))
          else Inr (Progress percent downloaded_mb total_mb)))"

definition report_progress :: "int \<Rightarrow> int \<Rightarrow> real \<Rightarrow> state \<Rightarrow> (exn + unit) \<times> state" where
  "report_progress downloaded total_size speed st =
     (let st0 = log_report downloaded total_size speed st in
      case progress_percent downloaded total_size of
        Inl e \<Rightarrow> (Inl e, st0)
      | Inr percent \<Rightarrow>
          (case progress_message percent downloaded total_size speed of
             Inl e \<Rightarrow> (Inl e, st0)
           | Inr msg \<Rightarrow> (Inr (), progress_callback percent msg st0)))"

section \<open>Probing the server (lines 127-151)\<close>

definition check_resume_support :: "environment \<Rightarrow> string \<Rightarrow> state \<Rightarrow> bool \<times> state" where
  "check_resume_support env url st =
     (let st1 = emit (NetHead url) st in
      case range_probe env of
        Head_raises \<Rightarrow> (False, st1)
      | Head_ok cl ar \<Rightarrow> (ar = Some ''bytes'', st1))"

definition get_remote_size :: "environment \<Rightarrow> string \<Rightarrow> state \<Rightarrow> (exn + int) \<times> state" where
  "get_remote_size env url st =
     (let st1 = emit (NetHead url) st in
      case size_probe env of
        Head_raises \<Rightarrow> (Inl (Could_not_get_remote_file_size RequestException), st1)
      | Head_ok cl ar \<Rightarrow>
          (case cl of
             None \<Rightarrow> (Inr 0, st1)
           | Some s \<Rightarrow>
               (case py_int s of
                  None \<Rightarrow> (Inl (Could_not_get_remote_file_size ValueError), st1)
                | Some n \<Rightarrow> (Inr n, st1))))"

section \<open>The file system\<close>

text \<open>
  Only regular files are modelled, and the operations succeed whenever POSIX lets them
  succeed; \<open>rename\<close> replaces an existing destination.
\<close>

definition path_exists :: "path \<Rightarrow> state \<Rightarrow> bool \<times> state" where
  "path_exists p st = (files st p \<noteq> None, emit (FileExists p) st)"

definition st_size :: "path \<Rightarrow> state \<Rightarrow> (exn + int) \<times> state" where
  "st_size p st =
     (case files st p of
        None \<Rightarrow> (Inl FileNotFoundError, emit (FileStat p) st)
      | Some c \<Rightarrow> (Inr (int (length c)), emit (FileStat p) st))"

definition unlink_missing_ok :: "path \<Rightarrow> state \<Rightarrow> state" where
  "unlink_missing_ok p st = emit (FileUnlink p) (st\<lparr>files := (files st)(p := None)\<rparr>)"

definition open_file :: "path \<Rightarrow> open_mode \<Rightarrow> state \<Rightarrow> state" where
  "open_file p mode st =
     emit (FileOpen p mode)
       (case mode of
          WB \<Rightarrow> st\<lparr>files := (files st)(p \<mapsto> [])\<rparr>
        | AB \<Rightarrow> (case files st p of
                   None \<Rightarrow> st\<lparr>files := (files st)(p \<mapsto> [])\<rparr>
                 | Some c \<Rightarrow> st))"

definition write_file :: "path \<Rightarrow> bytes \<Rightarrow> state \<Rightarrow> state" where
  "write_file p chunk st =
     emit (FileWrite p chunk)
       (st\<lparr>files := (files st)(p \<mapsto> (case files st p of None \<Rightarrow> [] | Some c \<Rightarrow> c) @ chunk)\<rparr>)"

definition close_file :: "path \<Rightarrow> state \<Rightarrow> state" where
  "close_file p st = emit (FileClose p) st"

definition rename_file :: "path \<Rightarrow> path \<Rightarrow> state \<Rightarrow> (exn + unit) \<times> state" where
  "rename_file src dst st =
     (case files st src of
        None \<Rightarrow> (Inl FileNotFoundError, emit (FileRename src dst) st)
      | Some c \<Rightarrow>
          (Inr (), emit (FileRename src dst) (st\<lparr>files := (files st)(src := None, dst \<mapsto> c)\<rparr>)))"

section \<open>verify\_download (lines 153-163)\<close>

definition verify_download :: "downloader \<Rightarrow> int option \<Rightarrow> state \<Rightarrow> (exn + bool) \<times> state" where
  "verify_download d expected_size st =
     (let (ex, st1) = path_exists (final_path d) st in
      if \<not> ex then (Inr False, st1)
      else
        (case st_size (final_path d) st1 of
           (Inl e, st2) \<Rightarrow> (Inl e, st2)
         | (Inr actual_size, st2) \<Rightarrow>
             (case expected_size of
                Some n \<Rightarrow> (Inr (actual_size = n), st2)
              | None \<Rightarrow> (Inr (actual_size > 0), st2))))"

section \<open>download (lines 165-251)\<close>

text \<open>
  Lines 186-192: the check for an existing final file. The Boolean says whether
  \<open>download\<close> returns here.
\<close>

definition check_existing :: "downloader \<Rightarrow> int \<Rightarrow> state \<Rightarrow> (exn + bool) \<times> state" where
  "check_existing d remote_size st =
     (let (ex, st1) = path_exists (final_path d) st in
      if ex then
        (case verify_download d (Some remote_size) st1 of
           (Inl e, st2) \<Rightarrow> (Inl e, st2)
         | (Inr ok, st2) \<Rightarrow>
             if ok then
               (Inr True, progress_callback 100 (Model_already_downloaded (final_path d)) st2)
             else (Inr False, progress_callback 0 Existing_file_incomplete st2))
      else (Inr False, st1))"

text \<open>
  Lines 194-203: the check for a partial download. The result is the value of
  \<open>downloaded\<close> at line 205. Python's \<open>and\<close> evaluates \<open>check_resume_support\<close> only
  when \<open>resume\<close> is true.
\<close>

definition partial_check ::
  "downloader \<Rightarrow> environment \<Rightarrow> string \<Rightarrow> bool \<Rightarrow> state \<Rightarrow> (exn + int) \<times> state" where
  "partial_check d env url resume st =
     (let (ex, st1) = path_exists (temp_path d) st in
      case (if ex then st_size (temp_path d) st1 else (Inr 0, st1)) of
        (Inl e, st2) \<Rightarrow> (Inl e, st2)
      | (Inr downloaded, st2) \<Rightarrow>
          (let st3 = assign_downloaded downloaded st2 in
           if downloaded > 0 then
             (let (supported, st4) =
                    (if resume then check_resume_support env url st3 else (False, st3))
              in if supported then
                   (Inr downloaded, progress_callback 0 (Resuming_from_byte downloaded) st4)
                 else
                   (Inr 0, assign_downloaded 0 (unlink_missing_ok (temp_path d) st4)))
           else (Inr downloaded, st3)))"

text \<open>Line 230: the speed handed to the reporter inside the loop.\<close>

definition transfer_speed :: "int \<Rightarrow> int \<Rightarrow> real \<Rightarrow> exn + real" where
  "transfer_speed downloaded last_bytes elapsed =
     (if elapsed > 0 then py_truediv (of_int (downloaded - last_bytes)) elapsed else Inr 0)"

text \<open>
  Lines 222-232: the body of the loop, for one chunk together with the clock reading
  taken after it is written. The result is the new value of \<open>downloaded\<close>.
\<close>

definition process_chunk ::
  "downloader \<Rightarrow> int \<Rightarrow> bytes \<times> real \<Rightarrow> int \<Rightarrow> state \<Rightarrow> (exn + int) \<times> state" where
  "process_chunk d remote_size item downloaded st =
     (let (chunk, current_time) = item in
      if chunk = [] then (Inr downloaded, st)
      else
        (let st1 = write_file (temp_path d) chunk st;
             downloaded1 = downloaded + int (length chunk);
             st2 = emit ClockRead (assign_downloaded downloaded1 st1)
         in if current_time - last_progress_time st2 \<ge> 1 then
              (case start_time st2 of
                 None \<Rightarrow> (Inl TypeError, st2)
               | Some t0 \<Rightarrow>
                   (case transfer_speed downloaded1 (last_downloaded_bytes st2)
                           (current_time - t0) of
                      Inl e \<Rightarrow> (Inl e, st2)
                    | Inr speed \<Rightarrow>
                        (case report_progress downloaded1 remote_size speed st2 of
                           (Inl e, st3) \<Rightarrow> (Inl e, st3)
                         | (Inr u, st3) \<Rightarrow>
                             (Inr downloaded1, st3\<lparr>last_progress_time := current_time\<rparr>))))
            else (Inr downloaded1, st2)))"

text \<open>Line 221: the loop over the chunks of the response; an exception leaves it.\<close>

fun stream_chunks ::
  "downloader \<Rightarrow> int \<Rightarrow> (bytes \<times> real) list \<Rightarrow> int \<Rightarrow> state \<Rightarrow> (exn + int) \<times> state" where
  "stream_chunks d remote_size [] downloaded st = (Inr downloaded, st)"
| "stream_chunks d remote_size (item # rest) downloaded st =
     (case process_chunk d remote_size item downloaded st of
        (Inl e, st1) \<Rightarrow> (Inl e, st1)
      | (Inr downloaded1, st1) \<Rightarrow> stream_chunks d remote_size rest downloaded1 st1)"

text \<open>
  Lines 248-251: an exception raised inside the \<open>try\<close> block is wrapped, a
  \<open>RequestException\<close> by the first handler and anything else by the second.
\<close>

definition wrap_exception :: "exn \<Rightarrow> exn" where
  "wrap_exception e = (if e = RequestException then Download_failed e else Download_error e)"

definition request_headers :: "int \<Rightarrow> headers" where
  "request_headers downloaded =
     (''User-Agent'', ''Mozilla/5.0'')
       # (if downloaded > 0 then [(''Range'', ''bytes='' @ str_int downloaded @ ''-'')] else [])"

text \<open>Lines 205-251: the transfer itself, from the value of \<open>downloaded\<close> decided above.\<close>

definition transfer ::
  "downloader \<Rightarrow> environment \<Rightarrow> string \<Rightarrow> int \<Rightarrow> int \<Rightarrow> state \<Rightarrow> (exn + path) \<times> state" where
  "transfer d env url remote_size downloaded st =
     (let hs = request_headers downloaded;
          st1 = (emit ClockRead st)
                  \<lparr>start_time := Some (time_at_start env), last_downloaded_bytes := downloaded\<rparr>;
          st2 = emit (NetGet url hs) st1
      in case get_response env hs of
           Get_raises \<Rightarrow> (Inl (wrap_exception RequestException), st2)
         | Get_ok chunks fin \<Rightarrow>
             (let mode = (if downloaded > 0 then AB else WB);
                  st3 = open_file (temp_path d) mode st2
              in case stream_chunks d remote_size chunks downloaded st3 of
                   (Inl e, st4) \<Rightarrow> (Inl (wrap_exception e), close_file (temp_path d) st4)
                 | (Inr downloaded1, st4) \<Rightarrow>
                     (case fin of
                        Stream_raises \<Rightarrow>
                          (Inl (wrap_exception RequestException), close_file (temp_path d) st4)
                      | Stream_ends \<Rightarrow>
                          (let st5 = close_file (temp_path d) st4 in
                           case report_progress downloaded1 remote_size 0 st5 of
                             (Inl e, st6) \<Rightarrow> (Inl (wrap_exception e), st6)
                           | (Inr u, st6) \<Rightarrow>
                               if downloaded1 \<noteq> remote_size then
                                 (Inl (wrap_exception
                                         (Download_incomplete downloaded1 remote_size)), st6)
                               else
                                 (case rename_file (temp_path d) (final_path d) st6 of
                                    (Inl e, st7) \<Rightarrow> (Inl (wrap_exception e), st7)
                                  | (Inr v, st7) \<Rightarrow>
                                      (Inr (final_path d),
                                       progress_callback 100
                                         (Download_complete (final_path d)) st7))))))"

definition download ::
  "downloader \<Rightarrow> environment \<Rightarrow> bool \<Rightarrow> state \<Rightarrow> (exn + path) \<times> state" where
  "download d env resume st =
     (let url = get_download_url (model_info d) in
      case get_remote_size env url st of
        (Inl e, st1) \<Rightarrow> (Inl e, st1)
      | (Inr remote_size, st1) \<Rightarrow>
          if remote_size = 0 then (Inl Could_not_determine_remote_file_size, st1)
          else
            (let st2 = progress_callback 0
                         (Starting_download (display_name (model_info d))) st1
             in case check_existing d remote_size st2 of
                  (Inl e, st3) \<Rightarrow> (Inl e, st3)
                | (Inr True, st3) \<Rightarrow> (Inr (final_path d), st3)
                | (Inr False, st3) \<Rightarrow>
                    (case partial_check d env url resume st3 of
                       (Inl e, st4) \<Rightarrow> (Inl e, st4)
                     | (Inr downloaded, st4) \<Rightarrow>
                         transfer d env url remote_size downloaded st4)))"

section \<open>calculate\_checksum (lines 253-264)\<close>

text \<open>
  \<open>hashlib\<close> is not part of the repository: it is a parameter. \<open>hashlib.new(name)\<close>
  gives a hash object or raises \<open>ValueError\<close> for a name it does not know; a hash
  object is its initial state, its \<open>update\<close> and its \<open>hexdigest\<close>.
\<close>

record 'h hasher =
  h_init :: 'h
  h_update :: "'h \<Rightarrow> bytes \<Rightarrow> 'h"
  h_hexdigest :: "'h \<Rightarrow> string"

text \<open>Line 261: \<open>iter(lambda: f.read(n), b'')\<close>, the reads up to the first empty one.\<close>

function read_chunks :: "nat \<Rightarrow> bytes \<Rightarrow> bytes list" where
  "read_chunks n content =
     (if take n content = [] then []
      else take n content # read_chunks n (drop n content))"
  by pat_completeness auto
termination
  by (relation "measure (\<lambda>(n, content). length content)") auto

definition calculate_checksum ::
  "(string \<Rightarrow> 'h hasher option) \<Rightarrow> downloader \<Rightarrow> string \<Rightarrow> state \<Rightarrow> (exn + string) \<times> state" where
  "calculate_checksum hashlib_new d algorithm st =
     (let (ex, st1) = path_exists (final_path d) st in
      if \<not> ex then (Inl File_not_downloaded, st1)
      else
        (case hashlib_new algorithm of
           None \<Rightarrow> (Inl ValueError, st1)
         | Some hash_func \<Rightarrow>
             (case files st1 (final_path d) of
                None \<Rightarrow> (Inl FileNotFoundError, emit (FileRead (final_path d)) st1)
              | Some content \<Rightarrow>
                  (Inr (h_hexdigest hash_func
                          (foldl (h_update hash_func) (h_init hash_func)
                             (read_chunks 8192 content))),
                   emit (FileRead (final_path d)) st1))))"

section \<open>The catalog (lines 51-73 and 266-276)\<close>

text \<open>
  The class attribute \<open>RECOMMENDED_MODELS\<close> refers to a dictionary object whose values
  refer to \<open>ModelInfo\<close> objects; a caller can mutate whatever it holds a reference to.
  So objects live in a store, and a dictionary maps keys to addresses. Allocation takes
  the next address.
\<close>

type_synonym addr = nat

datatype pyobj = Dict "(string \<times> addr) list" | Info ModelInfo

record heap =
  objs :: "addr \<rightharpoonup> pyobj"
  next_addr :: addr

definition RECOMMENDED_MODELS :: addr where
  "RECOMMENDED_MODELS = 0"

definition class_heap :: heap where
  "class_heap =
     \<lparr> objs =
         [0 \<mapsto> Dict [(''floppa-12b-q4'', 1), (''floppa-12b-q5'', 2), (''floppa-12b-q6'', 3)],
          1 \<mapsto> Info \<lparr> repo_id = ''mradermacher/Floppa-12B-Gemma3-Uncensored-GGUF'',
                        filename = ''Floppa-12B-Gemma3-Uncensored.Q4_K_S.gguf'',
                        display_name = ''Floppa-12B (Q4_K_S)'',
                        size_gb = 646 / 100, quantization = ''Q4_K_S'' \<rparr>,
          2 \<mapsto> Info \<lparr> repo_id = ''mradermacher/Floppa-12B-Gemma3-Uncensored-GGUF'',
                        filename = ''Floppa-12B-Gemma3-Uncensored.Q5_K_M.gguf'',
                        display_name = ''Floppa-12B (Q5_K_M)'',
                        size_gb = 793 / 100, quantization = ''Q5_K_M'' \<rparr>,
          3 \<mapsto> Info \<lparr> repo_id = ''mradermacher/Floppa-12B-Gemma3-Uncensored-GGUF'',
                        filename = ''Floppa-12B-Gemma3-Uncensored.Q6_K.gguf'',
                        display_name = ''Floppa-12B (Q6_K)'',
                        size_gb = 941 / 100, quantization = ''Q6_K'' \<rparr>],
       next_addr = 4 \<rparr>"

text \<open>\<open>dict.copy()\<close>: a new dictionary object with the same items (a shallow copy).\<close>

definition dict_copy :: "addr \<Rightarrow> heap \<Rightarrow> (exn + addr) \<times> heap" where
  "dict_copy a h =
     (case objs h a of
        Some (Dict items) \<Rightarrow>
          (Inr (next_addr h),
           h\<lparr>objs := (objs h)(next_addr h \<mapsto> Dict items), next_addr := Suc (next_addr h)\<rparr>)
      | _ \<Rightarrow> (Inl TypeError, h))"

definition list_available_models :: "heap \<Rightarrow> (exn + addr) \<times> heap" where
  "list_available_models h = dict_copy RECOMMENDED_MODELS h"

definition get_model_info :: "string \<Rightarrow> heap \<Rightarrow> exn + addr" where
  "get_model_info model_key h =
     (case objs h RECOMMENDED_MODELS of
        Some (Dict items) \<Rightarrow>
          (case map_of items model_key of
             None \<Rightarrow> Inl (Unknown_model model_key)
           | Some a \<Rightarrow> Inr a)
      | _ \<Rightarrow> Inl TypeError)"

text \<open>
  The mutations of a dictionary object. One that raises (\<open>del\<close> or \<open>pop\<close> of a missing
  key, \<open>popitem\<close> on an empty dictionary) leaves the dictionary as it was.
\<close>

datatype dict_op =
    SetItem string addr
  | DelItem string
  | Pop string
  | PopItem
  | SetDefault string addr
  | Update "(string \<times> addr) list"
  | Clear

fun apply_dict_op :: "dict_op \<Rightarrow> (string \<times> addr) list \<Rightarrow> (string \<times> addr) list" where
  "apply_dict_op (SetItem k v) items = AList.update k v items"
| "apply_dict_op (DelItem k) items = AList.delete k items"
| "apply_dict_op (Pop k) items = AList.delete k items"
| "apply_dict_op PopItem items = butlast items"
| "apply_dict_op (SetDefault k v) items =
     (if map_of items k = None then AList.update k v items else items)"
| "apply_dict_op (Update kvs) items = fold (\<lambda>(k, v). AList.update k v) kvs items"
| "apply_dict_op Clear items = []"

definition mutate :: "addr \<Rightarrow> dict_op \<Rightarrow> heap \<Rightarrow> heap" where
  "mutate a op h =
     (case objs h a of
        Some (Dict items) \<Rightarrow> h\<lparr>objs := (objs h)(a \<mapsto> Dict (apply_dict_op op items))\<rparr>
      | _ \<Rightarrow> h)"

section \<open>Observations on traces and states\<close>

text \<open>
  The functions of this section are not part of the program: they read a trace or a
  state, and the lemmas below relate them to what the program does.
\<close>

fun is_get :: "event \<Rightarrow> bool" where
  "is_get (NetGet u hs) = True"
| "is_get _ = False"

fun is_head :: "event \<Rightarrow> bool" where
  "is_head (NetHead u) = True"
| "is_head _ = False"

fun is_file_io :: "event \<Rightarrow> bool" where
  "is_file_io (FileExists p) = True"
| "is_file_io (FileStat p) = True"
| "is_file_io (FileUnlink p) = True"
| "is_file_io (FileOpen p m) = True"
| "is_file_io (FileWrite p b) = True"
| "is_file_io (FileClose p) = True"
| "is_file_io (FileRename p q) = True"
| "is_file_io (FileRead p) = True"
| "is_file_io _ = False"

fun callback_percent :: "event \<Rightarrow> real option" where
  "callback_percent (Callback p m) = Some p"
| "callback_percent _ = None"

definition callback_percents :: "event list \<Rightarrow> real list" where
  "callback_percents evs = List.map_filter callback_percent evs"

definition new_events :: "state \<Rightarrow> state \<Rightarrow> event list" where
  "new_events st st' = drop (length (trace st)) (trace st')"

fun is_progress_msg :: "message \<Rightarrow> bool" where
  "is_progress_msg (Progress p a b) = True"
| "is_progress_msg (Progress_speed p a b s e) = True"
| "is_progress_msg _ = False"

fun message_speed :: "message \<Rightarrow> real option" where
  "message_speed (Progress_speed p a b s e) = Some s"
| "message_speed _ = None"

fun loop_event :: "path \<Rightarrow> event \<Rightarrow> bool" where
  "loop_event tp (FileWrite p b) = (p = tp)"
| "loop_event tp ClockRead = True"
| "loop_event tp (Callback p m) = is_progress_msg m"
| "loop_event tp _ = False"

definition average_speed :: "int \<Rightarrow> real \<Rightarrow> real" where
  "average_speed nbytes elapsed = (if elapsed > 0 then of_int nbytes / elapsed else 0)"

definition speed_shown :: "real \<Rightarrow> real option" where
  "speed_shown s = (if s > 0 then Some s else None)"

definition chunks_len :: "(bytes \<times> real) list \<Rightarrow> int" where
  "chunks_len chunks = int (length (concat (map fst chunks)))"

definition temp_size :: "downloader \<Rightarrow> (path \<rightharpoonup> bytes) \<Rightarrow> int" where
  "temp_size d fs = (case fs (temp_path d) of None \<Rightarrow> 0 | Some c \<Rightarrow> int (length c))"

definition range_supported :: "environment \<Rightarrow> bool" where
  "range_supported env =
     (case range_probe env of Head_raises \<Rightarrow> False | Head_ok cl ar \<Rightarrow> ar = Some ''bytes'')"

definition resume_offset ::
  "downloader \<Rightarrow> environment \<Rightarrow> bool \<Rightarrow> (path \<rightharpoonup> bytes) \<Rightarrow> int" where
  "resume_offset d env resume fs =
     (if resume \<and> range_supported env then temp_size d fs else 0)"

definition partial_events ::
  "downloader \<Rightarrow> environment \<Rightarrow> string \<Rightarrow> bool \<Rightarrow> (path \<rightharpoonup> bytes) \<Rightarrow> event list" where
  "partial_events d env url resume fs =
     FileExists (temp_path d)
       # (if fs (temp_path d) = None then [] else [FileStat (temp_path d)])
       @ (if temp_size d fs > 0 then
            (if resume then [NetHead url] else [])
            @ (if resume \<and> range_supported env
               then [Callback 0 (Resuming_from_byte (temp_size d fs))]
               else [FileUnlink (temp_path d)])
          else [])"

definition existing_events :: "downloader \<Rightarrow> (path \<rightharpoonup> bytes) \<Rightarrow> event list" where
  "existing_events d fs =
     FileExists (final_path d)
       # (if fs (final_path d) = None then []
          else [FileExists (final_path d), FileStat (final_path d),
                Callback 0 Existing_file_incomplete])"

definition kept_bytes :: "downloader \<Rightarrow> int \<Rightarrow> (path \<rightharpoonup> bytes) \<Rightarrow> bytes" where
  "kept_bytes d k fs =
     (if k > 0 then (case fs (temp_path d) of None \<Rightarrow> [] | Some c \<Rightarrow> c) else [])"

definition closing_events ::
  "downloader \<Rightarrow> int \<Rightarrow> int \<Rightarrow> stream_end \<Rightarrow> message \<Rightarrow> event list" where
  "closing_events d r got fin m =
     FileClose (temp_path d)
       # (case fin of
            Stream_raises \<Rightarrow> []
          | Stream_ends \<Rightarrow>
              Callback (if r > 0 then of_int got / of_int r * 100 else 0) m
                # (if got \<noteq> r then []
                   else [FileRename (temp_path d) (final_path d),
                         Callback 100 (Download_complete (final_path d))]))"

definition transfer_result :: "downloader \<Rightarrow> int \<Rightarrow> int \<Rightarrow> stream_end \<Rightarrow> exn + path" where
  "transfer_result d r got fin =
     (case fin of
        Stream_raises \<Rightarrow> Inl (Download_failed RequestException)
      | Stream_ends \<Rightarrow>
          if got \<noteq> r then Inl (Download_error (Download_incomplete got r))
          else Inr (final_path d))"

definition prelude_events ::
  "downloader \<Rightarrow> environment \<Rightarrow> bool \<Rightarrow> (path \<rightharpoonup> bytes) \<Rightarrow> event list" where
  "prelude_events d env resume fs =
     [NetHead (get_download_url (model_info d)),
      Callback 0 (Starting_download (display_name (model_info d)))]
       @ existing_events d fs
       @ partial_events d env (get_download_url (model_info d)) resume fs"

definition discards_partial ::
  "downloader \<Rightarrow> environment \<Rightarrow> bool \<Rightarrow> (path \<rightharpoonup> bytes) \<Rightarrow> bool" where
  "discards_partial d env resume fs =
     (temp_size d fs > 0 \<and> \<not> (resume \<and> range_supported env))"

definition prelude_log ::
  "downloader \<Rightarrow> environment \<Rightarrow> bool \<Rightarrow> (path \<rightharpoonup> bytes) \<Rightarrow> int list" where
  "prelude_log d env resume fs =
     (if discards_partial d env resume fs then [temp_size d fs, 0]
      else [resume_offset d env resume fs])"

definition final_matches :: "downloader \<Rightarrow> int \<Rightarrow> (path \<rightharpoonup> bytes) \<Rightarrow> bool" where
  "final_matches d r fs =
     (case fs (final_path d) of None \<Rightarrow> False | Some c \<Rightarrow> int (length c) = r)"

definition short_circuit_events :: "downloader \<Rightarrow> event list" where
  "short_circuit_events d =
     [NetHead (get_download_url (model_info d)),
      Callback 0 (Starting_download (display_name (model_info d))),
      FileExists (final_path d), FileExists (final_path d), FileStat (final_path d),
      Callback 100 (Model_already_downloaded (final_path d))]"

fun is_rename :: "event \<Rightarrow> bool" where
  "is_rename (FileRename p q) = True"
| "is_rename _ = False"

fun is_unlink :: "event \<Rightarrow> bool" where
  "is_unlink (FileUnlink p) = True"
| "is_unlink _ = False"


definition after_get :: "event list \<Rightarrow> event list" where
  "after_get evs = dropWhile (\<lambda>e. \<not> is_get e) evs"


text \<open>
  The spec's name for the failures to learn the remote size: the two exceptions about
  the remote file size.
\<close>

fun is_RemoteMetadataError :: "exn \<Rightarrow> bool" where
  "is_RemoteMetadataError (Could_not_get_remote_file_size e) = True"
| "is_RemoteMetadataError Could_not_determine_remote_file_size = True"
| "is_RemoteMetadataError _ = False"

text \<open>The spec's name for a byte count that differs from the remote size.\<close>

fun is_IncompleteTransferError :: "exn \<Rightarrow> bool" where
  "is_IncompleteTransferError (Download_error (Download_incomplete got r)) = True"
| "is_IncompleteTransferError _ = False"

definition new_log :: "state \<Rightarrow> state \<Rightarrow> int list" where
  "new_log st st' = drop (length (downloaded_log st)) (downloaded_log st')"

fun event_speed :: "event \<Rightarrow> real option" where
  "event_speed (Callback p m) = message_speed m"
| "event_speed _ = None"

definition reported_speeds :: "event list \<Rightarrow> real list" where
  "reported_speeds evs = List.map_filter event_speed evs"

text \<open>
  The speed as the spec words it: the bytes received since the last sample over the
  time since the last sample, in MiB per second, and 0 when no time has elapsed.
\<close>

definition spec_window_speed :: "int \<Rightarrow> real \<Rightarrow> real" where
  "spec_window_speed bytes_since_last time_since_last =
     (if time_since_last > 0
      then of_int bytes_since_last / time_since_last / (1024 * 1024) else 0)"

definition new_reports :: "state \<Rightarrow> state \<Rightarrow> (int \<times> int \<times> real) list" where
  "new_reports st st' = drop (length (report_log st)) (report_log st')"

text \<open>
  The reports as the amended reading words them: a report is due at a non-empty chunk
  when at least one second has passed since the previous report; it carries the bytes
  downloaded so far, the total, and as speed the bytes received since the transfer began
  divided by the time elapsed since it began (0 when no time has elapsed). The arguments
  are the time the transfer began, the offset it began from, the total, the time of the
  previous report and the bytes downloaded so far.
\<close>

fun average_reports ::
  "real \<Rightarrow> int \<Rightarrow> int \<Rightarrow> real \<Rightarrow> int \<Rightarrow> (bytes \<times> real) list \<Rightarrow> (int \<times> int \<times> real) list" where
  "average_reports t0 offset r prev dl [] = []"
| "average_reports t0 offset r prev dl ((chunk, now) # rest) =
     (if chunk \<noteq> [] \<and> now - prev \<ge> 1 then
        (dl + int (length chunk), r,
         average_speed (dl + int (length chunk) - offset) (now - t0))
          # average_reports t0 offset r now (dl + int (length chunk)) rest
      else average_reports t0 offset r prev (dl + int (length chunk)) rest)"

text \<open>
  The resolved size \<open>r\<close>, the offset \<open>k\<close> and the number \<open>n\<close> of bytes of the response
  are small enough for every conversion to a float that a progress report makes.
\<close>

definition sizes_fit_float :: "int \<Rightarrow> int \<Rightarrow> int \<Rightarrow> bool" where
  "sizes_fit_float r k n = (\<bar>real_of_int r\<bar> + \<bar>real_of_int k\<bar> + real_of_int n < float_limit)"

section \<open>Concrete inputs\<close>

text \<open>The inputs on which the results below are evaluated.\<close>

definition demo_info :: ModelInfo where
  "demo_info =
     \<lparr> repo_id = ''org/repo'', filename = ''m.gguf'', display_name = ''M'',
       size_gb = 1, quantization = ''Q4'' \<rparr>"

definition demo_downloader :: downloader where
  "demo_downloader = ModelDownloader_init demo_info ''out''"

definition demo_chunks :: "(bytes \<times> real) list" where
  "demo_chunks = [([1, 2, 3, 4], 101), ([5, 6, 7, 8, 9, 10, 11, 12, 13, 14, 15, 16], 102)]"

definition demo_env :: "string option \<Rightarrow> string option \<Rightarrow> environment" where
  "demo_env len ranges =
     \<lparr> size_probe = Head_ok len ranges,
       range_probe = Head_ok len ranges,
       get_response = (\<lambda>hs. Get_ok demo_chunks Stream_ends),
       time_at_start = 100 \<rparr>"

text \<open>A hash to evaluate the results on: the sum of the bytes modulo 256, in hex.\<close>

definition demo_hashlib :: "string \<Rightarrow> (8 word) hasher option" where
  "demo_hashlib name =
     (if name = ''sum8'' then
        Some \<lparr> h_init = 0,
               h_update = (\<lambda>h chunk. h + sum_list chunk),
               h_hexdigest = (\<lambda>h. [''0123456789abcdef'' ! (unat h div 16),
                                     ''0123456789abcdef'' ! (unat h mod 16)]) \<rparr>
      else None)"

text \<open>
  A server that declares a length of \<open>10^400\<close> bytes and sends an empty body.
\<close>

definition huge_length :: string where
  "huge_length = CHR ''1'' # replicate 400 CHR ''0''"

definition huge_env :: environment where
  "huge_env =
     \<lparr> size_probe = Head_ok (Some huge_length) None,
       range_probe = Head_ok (Some huge_length) None,
       get_response = (\<lambda>hs. Get_ok [] Stream_ends),
       time_at_start = 100 \<rparr>"

section \<open>Results on progress reporting\<close>

lemma progress_percent_eq:
  "progress_percent downloaded total_size =
     Inr (if total_size > 0 then of_int downloaded / of_int total_size * 100 else 0)"
  by (simp add: progress_percent_def py_truediv_def)

text \<open>
  C9. For every pair of downloaded and total byte counts the progress computation
  never divides by zero: it returns downloaded/total * 100 when the total is positive
  and 0 when the total is 0 (and also when the total is negative, which is not a byte
  count).
\<close>

theorem progress_percent_guarded:
  "progress_percent downloaded total_size \<noteq> Inl ZeroDivisionError
   \<and> (0 < total_size \<longrightarrow>
        progress_percent downloaded total_size = Inr (of_int downloaded / of_int total_size * 100))
   \<and> (total_size \<le> 0 \<longrightarrow> progress_percent downloaded total_size = Inr 0)"
  by (simp add: progress_percent_def py_truediv_def)

theorem progress_percent_guarded_witness:
  "progress_percent 1 4 = Inr 25 \<and> progress_percent 7 0 = Inr 0"
  using progress_percent_guarded [of 1 4] progress_percent_guarded [of 7 0]
  by simp

section \<open>Effects of the primitive operations\<close>

lemma emit_fields [simp]:
  "files (emit e st) = files st"
  "trace (emit e st) = trace st @ [e]"
  "last_progress_time (emit e st) = last_progress_time st"
  "last_downloaded_bytes (emit e st) = last_downloaded_bytes st"
  "start_time (emit e st) = start_time st"
  "downloaded_log (emit e st) = downloaded_log st"
  "report_log (emit e st) = report_log st"
  by (simp_all add: emit_def)

lemma progress_callback_fields [simp]:
  "files (progress_callback p m st) = files st"
  "trace (progress_callback p m st) = trace st @ [Callback p m]"
  "last_progress_time (progress_callback p m st) = last_progress_time st"
  "last_downloaded_bytes (progress_callback p m st) = last_downloaded_bytes st"
  "start_time (progress_callback p m st) = start_time st"
  "downloaded_log (progress_callback p m st) = downloaded_log st"
  "report_log (progress_callback p m st) = report_log st"
  by (simp_all add: progress_callback_def)

lemma assign_downloaded_fields [simp]:
  "files (assign_downloaded v st) = files st"
  "trace (assign_downloaded v st) = trace st"
  "last_progress_time (assign_downloaded v st) = last_progress_time st"
  "last_downloaded_bytes (assign_downloaded v st) = last_downloaded_bytes st"
  "start_time (assign_downloaded v st) = start_time st"
  "downloaded_log (assign_downloaded v st) = downloaded_log st @ [v]"
  "report_log (assign_downloaded v st) = report_log st"
  by (simp_all add: assign_downloaded_def)

lemma log_report_fields [simp]:
  "files (log_report dl r s st) = files st"
  "trace (log_report dl r s st) = trace st"
  "last_progress_time (log_report dl r s st) = last_progress_time st"
  "last_downloaded_bytes (log_report dl r s st) = last_downloaded_bytes st"
  "start_time (log_report dl r s st) = start_time st"
  "downloaded_log (log_report dl r s st) = downloaded_log st"
  "report_log (log_report dl r s st) = report_log st @ [(dl, r, s)]"
  by (simp_all add: log_report_def)

lemma write_file_fields [simp]:
  "files (write_file p chunk st) =
     (files st)(p \<mapsto> (case files st p of None \<Rightarrow> [] | Some c \<Rightarrow> c) @ chunk)"
  "trace (write_file p chunk st) = trace st @ [FileWrite p chunk]"
  "last_progress_time (write_file p chunk st) = last_progress_time st"
  "last_downloaded_bytes (write_file p chunk st) = last_downloaded_bytes st"
  "start_time (write_file p chunk st) = start_time st"
  "downloaded_log (write_file p chunk st) = downloaded_log st"
  "report_log (write_file p chunk st) = report_log st"
  by (simp_all add: write_file_def)

section \<open>The loop over the chunks\<close>

lemma transfer_speed_eq:
  "transfer_speed a b e = Inr (average_speed (a - b) e)"
  by (simp add: transfer_speed_def py_truediv_def average_speed_def)

lemma progress_message_cases:
  "(\<exists>m. progress_message p dl r s = Inr m \<and> is_progress_msg m
          \<and> message_speed m = speed_shown s)
   \<or> progress_message p dl r s = Inl OverflowError"
  by (simp add: progress_message_def py_truediv_def py_int_truediv_def py_float_def
        speed_shown_def)

lemma progress_message_fits:
  assumes "\<bar>real_of_int r\<bar> + \<bar>real_of_int dl\<bar> < float_limit"
  shows "\<exists>m. progress_message p dl r s = Inr m \<and> is_progress_msg m
          \<and> message_speed m = speed_shown s"
proof -
  have "\<bar>real_of_int r\<bar> / 1048576 \<le> \<bar>real_of_int r\<bar>"
    by (simp add: field_simps)
  then have a: "\<not> float_limit \<le> \<bar>real_of_int r\<bar> / 1048576"
    using assms by linarith
  have "\<bar>real_of_int r - real_of_int dl\<bar> \<le> \<bar>real_of_int r\<bar> + \<bar>real_of_int dl\<bar>"
    by linarith
  then have b: "\<not> float_limit \<le> \<bar>real_of_int r - real_of_int dl\<bar>"
    using assms by linarith
  show ?thesis
    using a b
    by (simp add: progress_message_def py_truediv_def py_int_truediv_def py_float_def
          speed_shown_def)
qed

lemma progress_percent_value:
  "progress_percent dl r = Inr (if r > 0 then of_int dl / of_int r * 100 else 0)"
  by (simp add: progress_percent_def py_truediv_def)

lemma report_progress_cases:
  "(\<exists>m. report_progress dl r s st =
           (Inr (),
            progress_callback (if r > 0 then of_int dl / of_int r * 100 else 0) m
              (log_report dl r s st))
        \<and> is_progress_msg m \<and> message_speed m = speed_shown s)
   \<or> report_progress dl r s st = (Inl OverflowError, log_report dl r s st)"
  using progress_message_cases [of "if r > 0 then of_int dl / of_int r * 100 else 0" dl r s]
  unfolding report_progress_def Let_def progress_percent_value
  by (elim disjE exE conjE) auto

lemma report_progress_fits:
  assumes "\<bar>real_of_int r\<bar> + \<bar>real_of_int dl\<bar> < float_limit"
  shows "\<exists>m. report_progress dl r s st =
           (Inr (),
            progress_callback (if r > 0 then of_int dl / of_int r * 100 else 0) m
              (log_report dl r s st))
        \<and> is_progress_msg m \<and> message_speed m = speed_shown s"
  using progress_message_fits [OF assms, of "if r > 0 then of_int dl / of_int r * 100 else 0" s]
  unfolding report_progress_def Let_def progress_percent_value
  by (elim exE conjE) auto

lemma process_chunk_shape:
  assumes "start_time st = Some t0" and "files st (temp_path d) = Some c"
  shows "\<exists>res st' evs.
       process_chunk d r (chunk, now) dl st = (res, st')
     \<and> trace st' = trace st @ evs \<and> (\<forall>e\<in>set evs. loop_event (temp_path d) e)
     \<and> files st' = (files st)(temp_path d \<mapsto> c @ chunk)
     \<and> start_time st' = Some t0
     \<and> last_downloaded_bytes st' = last_downloaded_bytes st
     \<and> downloaded_log st' =
           downloaded_log st @ (if chunk = [] then [] else [dl + int (length chunk)])
     \<and> report_log st' =
           report_log st @
             (if chunk \<noteq> [] \<and> now - last_progress_time st \<ge> 1
              then [(dl + int (length chunk), r,
                     average_speed (dl + int (length chunk) - last_downloaded_bytes st)
                       (now - t0))]
              else [])
     \<and> (res = Inr (dl + int (length chunk))
          \<and> last_progress_time st' =
              (if chunk \<noteq> [] \<and> now - last_progress_time st \<ge> 1 then now
               else last_progress_time st)
        \<or> res = Inl OverflowError)
     \<and> (\<bar>real_of_int r\<bar> + \<bar>real_of_int (dl + int (length chunk))\<bar> < float_limit \<longrightarrow>
          res = Inr (dl + int (length chunk)))"
proof (cases "chunk = []")
  case True
  with assms show ?thesis
    by (simp add: process_chunk_def map_upd_triv)
next
  case False
  let ?dl1 = "dl + int (length chunk)"
  let ?st2 = "emit ClockRead (assign_downloaded ?dl1 (write_file (temp_path d) chunk st))"
  let ?s = "average_speed (?dl1 - last_downloaded_bytes st) (now - t0)"
  let ?p = "if r > 0 then of_int ?dl1 / of_int r * 100 else 0 :: real"
  have st2: "start_time ?st2 = Some t0" "last_downloaded_bytes ?st2 = last_downloaded_bytes st"
    "files ?st2 = (files st)(temp_path d \<mapsto> c @ chunk)"
    "trace ?st2 = trace st @ [FileWrite (temp_path d) chunk, ClockRead]"
    "downloaded_log ?st2 = downloaded_log st @ [?dl1]"
    "last_progress_time ?st2 = last_progress_time st"
    "report_log ?st2 = report_log st"
    using assms by simp_all
  show ?thesis
  proof (cases "now - last_progress_time st \<ge> 1")
    case quiet: False
    with False st2 show ?thesis
      by (simp add: process_chunk_def Let_def)
  next
    case loud: True
    have unfold: "process_chunk d r (chunk, now) dl st =
        (case report_progress ?dl1 r ?s ?st2 of
           (Inl e, st3) \<Rightarrow> (Inl e, st3)
         | (Inr u, st3) \<Rightarrow> (Inr ?dl1, st3\<lparr>last_progress_time := now\<rparr>))"
      using False loud st2
      by (simp add: process_chunk_def Let_def transfer_speed_eq)
    consider (ok) m where
        "report_progress ?dl1 r ?s ?st2 =
           (Inr (), progress_callback ?p m (log_report ?dl1 r ?s ?st2))"
        "is_progress_msg m"
      | (overflow)
        "report_progress ?dl1 r ?s ?st2 = (Inl OverflowError, log_report ?dl1 r ?s ?st2)"
        "\<not> \<bar>real_of_int r\<bar> + \<bar>real_of_int ?dl1\<bar> < float_limit"
    proof (cases "\<bar>real_of_int r\<bar> + \<bar>real_of_int ?dl1\<bar> < float_limit")
      case True
      from report_progress_fits [OF True, of ?s ?st2] ok show ?thesis by blast
    next
      case False
      with report_progress_cases [of ?dl1 r ?s ?st2] ok overflow show ?thesis by blast
    qed
    then show ?thesis
    proof cases
      case ok
      have "process_chunk d r (chunk, now) dl st =
          (Inr ?dl1, (progress_callback ?p m (log_report ?dl1 r ?s ?st2))
             \<lparr>last_progress_time := now\<rparr>)"
        unfolding unfold ok(1) by simp
      with st2 ok(2) False loud show ?thesis by simp
    next
      case overflow
      have "process_chunk d r (chunk, now) dl st =
          (Inl OverflowError, log_report ?dl1 r ?s ?st2)"
        unfolding unfold overflow(1) by simp
      with st2 overflow(2) False loud show ?thesis by simp
    qed
  qed
qed

lemma stream_chunks_shape:
  assumes "start_time st = Some t0" and "files st (temp_path d) = Some c"
  shows "\<exists>res st' evs L n R.
       stream_chunks d r chunks dl st = (res, st')
     \<and> trace st' = trace st @ evs \<and> (\<forall>e\<in>set evs. loop_event (temp_path d) e)
     \<and> n \<le> length chunks
     \<and> files st' = (files st)(temp_path d \<mapsto> c @ concat (map fst (take n chunks)))
     \<and> start_time st' = Some t0
     \<and> last_downloaded_bytes st' = last_downloaded_bytes st
     \<and> downloaded_log st' = downloaded_log st @ L \<and> sorted (dl # L)
     \<and> report_log st' = report_log st @ R
     \<and> prefix R (average_reports t0 (last_downloaded_bytes st) r (last_progress_time st)
                    dl chunks)
     \<and> (res = Inr (dl + chunks_len chunks) \<and> n = length chunks
          \<and> R = average_reports t0 (last_downloaded_bytes st) r (last_progress_time st)
                  dl chunks
        \<or> res = Inl OverflowError)
     \<and> (\<bar>real_of_int r\<bar> + \<bar>real_of_int dl\<bar> + real_of_int (chunks_len chunks) < float_limit
          \<longrightarrow> res = Inr (dl + chunks_len chunks))"
  using assms
proof (induction chunks arbitrary: dl st c)
  case Nil
  then show ?case by (simp add: chunks_len_def map_upd_triv)
next
  case (Cons item rest)
  obtain chunk now where item: "item = (chunk, now)" by (cases item)
  let ?dl1 = "dl + int (length chunk)"
  let ?emits = "chunk \<noteq> [] \<and> now - last_progress_time st \<ge> 1"
  let ?x = "(?dl1, r, average_speed (?dl1 - last_downloaded_bytes st) (now - t0))"
  define L1 where "L1 = (if chunk = [] then [] else [?dl1])"
  define R1 where "R1 = (if ?emits then [?x] else [])"
  let ?avg = "average_reports t0 (last_downloaded_bytes st) r"
  obtain res1 st1 evs1 where s1:
    "process_chunk d r (chunk, now) dl st = (res1, st1)"
    "trace st1 = trace st @ evs1" "\<forall>e\<in>set evs1. loop_event (temp_path d) e"
    "files st1 = (files st)(temp_path d \<mapsto> c @ chunk)"
    "start_time st1 = Some t0"
    "last_downloaded_bytes st1 = last_downloaded_bytes st"
    "downloaded_log st1 = downloaded_log st @ L1"
    "report_log st1 = report_log st @ R1"
    "res1 = Inr ?dl1
       \<and> last_progress_time st1 = (if ?emits then now else last_progress_time st)
     \<or> res1 = Inl OverflowError"
    "\<bar>real_of_int r\<bar> + \<bar>real_of_int ?dl1\<bar> < float_limit \<longrightarrow> res1 = Inr ?dl1"
    using process_chunk_shape [OF Cons.prems, of r chunk now dl] unfolding L1_def R1_def
    by blast
  have len: "chunks_len (item # rest) = int (length chunk) + chunks_len rest"
    by (simp add: chunks_len_def item)
  have nn: "0 \<le> chunks_len rest" by (simp add: chunks_len_def)
  have sL1: "sorted (dl # L1)" by (simp add: L1_def)
  have avg: "?avg (last_progress_time st) dl (item # rest) =
      R1 @ ?avg (if ?emits then now else last_progress_time st) ?dl1 rest"
    by (simp add: item R1_def)
  have fit1: "\<bar>real_of_int r\<bar> + \<bar>real_of_int ?dl1\<bar> < float_limit"
    if "\<bar>real_of_int r\<bar> + \<bar>real_of_int dl\<bar> + real_of_int (chunks_len (item # rest))
          < float_limit"
  proof -
    have "\<bar>real_of_int ?dl1\<bar> \<le> \<bar>real_of_int dl\<bar> + real_of_int (int (length chunk))"
      by simp
    with that nn show ?thesis unfolding len by simp
  qed
  from s1(9) show ?case
  proof (elim disjE conjE)
    assume bad: "res1 = Inl OverflowError"
    have run: "stream_chunks d r (item # rest) dl st = (Inl OverflowError, st1)"
      using s1(1) bad by (simp add: item)
    have fl: "files st1 =
        (files st)(temp_path d \<mapsto> c @ concat (map fst (take 1 (item # rest))))"
      using s1(4) by (simp add: item)
    have pre: "prefix R1 (?avg (last_progress_time st) dl (item # rest))"
      unfolding avg by simp
    have nofit: "\<not> \<bar>real_of_int r\<bar> + \<bar>real_of_int dl\<bar>
          + real_of_int (chunks_len (item # rest)) < float_limit"
      using fit1 s1(10) bad by auto
    have one: "(1::nat) \<le> length (item # rest)" by simp
    show ?thesis
      using run s1(2,3) one fl s1(5,6,7) sL1 s1(8) pre nofit
      by (intro exI [of _ "Inl OverflowError"] exI [of _ st1] exI [of _ evs1]
            exI [of _ L1] exI [of _ 1] exI [of _ R1]) simp
  next
    assume good: "res1 = Inr ?dl1"
      and lpt: "last_progress_time st1 = (if ?emits then now else last_progress_time st)"
    have f1: "files st1 (temp_path d) = Some (c @ chunk)" using s1(4) by simp
    obtain res2 st2 evs2 L2 n2 R2 where s2:
      "stream_chunks d r rest ?dl1 st1 = (res2, st2)"
      "trace st2 = trace st1 @ evs2" "\<forall>e\<in>set evs2. loop_event (temp_path d) e"
      "n2 \<le> length rest"
      "files st2 = (files st1)(temp_path d \<mapsto> (c @ chunk) @ concat (map fst (take n2 rest)))"
      "start_time st2 = Some t0"
      "last_downloaded_bytes st2 = last_downloaded_bytes st1"
      "downloaded_log st2 = downloaded_log st1 @ L2"
      "sorted (?dl1 # L2)"
      "report_log st2 = report_log st1 @ R2"
      "prefix R2 (average_reports t0 (last_downloaded_bytes st1) r (last_progress_time st1)
                    ?dl1 rest)"
      "res2 = Inr (?dl1 + chunks_len rest) \<and> n2 = length rest
          \<and> R2 = average_reports t0 (last_downloaded_bytes st1) r (last_progress_time st1)
                  ?dl1 rest
        \<or> res2 = Inl OverflowError"
      "\<bar>real_of_int r\<bar> + \<bar>real_of_int ?dl1\<bar> + real_of_int (chunks_len rest) < float_limit
          \<longrightarrow> res2 = Inr (?dl1 + chunks_len rest)"
      using Cons.IH [OF s1(5) f1, of ?dl1] by blast
    have run: "stream_chunks d r (item # rest) dl st = (res2, st2)"
      using s1(1) s2(1) good by (simp add: item)
    have tr: "trace st2 = trace st @ (evs1 @ evs2)" using s1(2) s2(2) by simp
    have ev: "\<forall>e\<in>set (evs1 @ evs2). loop_event (temp_path d) e" using s1(3) s2(3) by auto
    have nl: "Suc n2 \<le> length (item # rest)" using s2(4) by simp
    have fl: "files st2 =
        (files st)(temp_path d \<mapsto> c @ concat (map fst (take (Suc n2) (item # rest))))"
      using s1(4) s2(5) by (simp add: item)
    have lb: "last_downloaded_bytes st2 = last_downloaded_bytes st" using s1(6) s2(7) by simp
    have lg: "downloaded_log st2 = downloaded_log st @ (L1 @ L2)" using s1(7) s2(8) by simp
    have so: "sorted (dl # (L1 @ L2))"
      using s2(9) by (auto simp: sorted_append L1_def)
    have rl: "report_log st2 = report_log st @ (R1 @ R2)" using s1(8) s2(10) by simp
    have pre: "prefix (R1 @ R2) (?avg (last_progress_time st) dl (item # rest))"
      unfolding avg using s2(11) by (simp add: s1(6) lpt)
    have out: "res2 = Inr (dl + chunks_len (item # rest)) \<and> Suc n2 = length (item # rest)
          \<and> R1 @ R2 = ?avg (last_progress_time st) dl (item # rest)
        \<or> res2 = Inl OverflowError"
      using s2(12) unfolding avg len by (auto simp: s1(6) lpt)
    have fit: "\<bar>real_of_int r\<bar> + \<bar>real_of_int dl\<bar>
          + real_of_int (chunks_len (item # rest)) < float_limit
          \<longrightarrow> res2 = Inr (dl + chunks_len (item # rest))"
    proof
      assume a: "\<bar>real_of_int r\<bar> + \<bar>real_of_int dl\<bar>
          + real_of_int (chunks_len (item # rest)) < float_limit"
      have "\<bar>real_of_int ?dl1\<bar> \<le> \<bar>real_of_int dl\<bar> + real_of_int (int (length chunk))"
        by simp
      with a have "\<bar>real_of_int r\<bar> + \<bar>real_of_int ?dl1\<bar> + real_of_int (chunks_len rest)
          < float_limit"
        unfolding len by simp
      with s2(13) show "res2 = Inr (dl + chunks_len (item # rest))"
        unfolding len by (simp add: add.assoc)
    qed
    show ?thesis
      using run tr ev nl fl s2(6) lb lg so rl pre out fit
      by (intro exI [of _ res2] exI [of _ st2] exI [of _ "evs1 @ evs2"]
            exI [of _ "L1 @ L2"] exI [of _ "Suc n2"] exI [of _ "R1 @ R2"]) simp
  qed
qed

section \<open>The checks before the transfer\<close>

lemma unlink_fields [simp]:
  "files (unlink_missing_ok p st) = (files st)(p := None)"
  "trace (unlink_missing_ok p st) = trace st @ [FileUnlink p]"
  "last_progress_time (unlink_missing_ok p st) = last_progress_time st"
  "last_downloaded_bytes (unlink_missing_ok p st) = last_downloaded_bytes st"
  "start_time (unlink_missing_ok p st) = start_time st"
  "downloaded_log (unlink_missing_ok p st) = downloaded_log st"
  "report_log (unlink_missing_ok p st) = report_log st"
  by (simp_all add: unlink_missing_ok_def)

lemma check_resume_support_eq:
  "check_resume_support env url st = (range_supported env, emit (NetHead url) st)"
  by (simp add: check_resume_support_def range_supported_def split: head_result.splits)

lemma partial_check_shape:
  "\<exists>st'. partial_check d env url resume st = (Inr (resume_offset d env resume (files st)), st')
     \<and> trace st' = trace st @ partial_events d env url resume (files st)
     \<and> files st' =
         (if temp_size d (files st) > 0 \<and> \<not> (resume \<and> range_supported env)
          then (files st)(temp_path d := None) else files st)
     \<and> downloaded_log st' =
         downloaded_log st @
           (if temp_size d (files st) > 0 \<and> \<not> (resume \<and> range_supported env)
            then [temp_size d (files st), 0] else [resume_offset d env resume (files st)])
     \<and> last_progress_time st' = last_progress_time st
     \<and> report_log st' = report_log st"
  by (cases "files st (temp_path d)")
     (auto simp: partial_check_def path_exists_def st_size_def check_resume_support_eq
        resume_offset_def temp_size_def partial_events_def Let_def)

lemma check_existing_mismatch:
  assumes "\<forall>c. files st (final_path d) = Some c \<longrightarrow> int (length c) \<noteq> r"
  shows "check_existing d r st = (Inr False, st\<lparr>trace := trace st @ existing_events d (files st)\<rparr>)"
  using assms
  by (cases "files st (final_path d)")
     (auto simp: check_existing_def verify_download_def path_exists_def st_size_def
        existing_events_def emit_def progress_callback_def Let_def)

section \<open>The transfer\<close>

lemma open_file_fields [simp]:
  "trace (open_file p mode st) = trace st @ [FileOpen p mode]"
  "last_progress_time (open_file p mode st) = last_progress_time st"
  "last_downloaded_bytes (open_file p mode st) = last_downloaded_bytes st"
  "start_time (open_file p mode st) = start_time st"
  "downloaded_log (open_file p mode st) = downloaded_log st"
  "report_log (open_file p mode st) = report_log st"
  by (simp_all add: open_file_def split: open_mode.splits option.splits)

lemma open_file_files:
  "files (open_file (temp_path d) (if k > 0 then AB else WB) st) =
     (files st)(temp_path d \<mapsto> kept_bytes d k (files st))"
  by (auto simp: open_file_def kept_bytes_def map_upd_triv split: option.splits)

lemma close_file_fields [simp]:
  "files (close_file p st) = files st"
  "trace (close_file p st) = trace st @ [FileClose p]"
  "last_progress_time (close_file p st) = last_progress_time st"
  "last_downloaded_bytes (close_file p st) = last_downloaded_bytes st"
  "start_time (close_file p st) = start_time st"
  "downloaded_log (close_file p st) = downloaded_log st"
  "report_log (close_file p st) = report_log st"
  by (simp_all add: close_file_def)

lemma wrap_exception_simps [simp]:
  "wrap_exception RequestException = Download_failed RequestException"
  "wrap_exception OverflowError = Download_error OverflowError"
  "wrap_exception (Download_incomplete a b) = Download_error (Download_incomplete a b)"
  by (simp_all add: wrap_exception_def)

lemma transfer_get_raises:
  assumes "get_response env (request_headers k) = Get_raises"
  shows "\<exists>st'. transfer d env url r k st = (Inl (Download_failed RequestException), st')
     \<and> trace st' = trace st @ [ClockRead, NetGet url (request_headers k)]
     \<and> files st' = files st
     \<and> downloaded_log st' = downloaded_log st
     \<and> report_log st' = report_log st"
  using assms by (simp add: transfer_def Let_def)

lemma transfer_stream_shape:
  assumes get: "get_response env (request_headers k) = Get_ok chunks fin"
      and ne: "temp_path d \<noteq> final_path d"
  shows "\<exists>res st' evs tail n L R.
       transfer d env url r k st = (res, st')
     \<and> trace st' =
         trace st
           @ [ClockRead, NetGet url (request_headers k),
              FileOpen (temp_path d) (if k > 0 then AB else WB)]
           @ evs @ FileClose (temp_path d) # tail
     \<and> (\<forall>e\<in>set evs. loop_event (temp_path d) e)
     \<and> n \<le> length chunks
     \<and> downloaded_log st' = downloaded_log st @ L \<and> sorted (k # L)
     \<and> report_log st' = report_log st @ R
     \<and> prefix R
          (average_reports (time_at_start env) k r (last_progress_time st) k chunks
             @ [(k + chunks_len chunks, r, 0)])
     \<and> (res = Inr (final_path d) \<and> fin = Stream_ends \<and> k + chunks_len chunks = r
          \<and> (\<exists>p m. tail =
                [Callback p m, FileRename (temp_path d) (final_path d),
                 Callback 100 (Download_complete (final_path d))])
          \<and> files st' =
              (files st)(temp_path d := None,
                 final_path d \<mapsto> kept_bytes d k (files st) @ concat (map fst chunks))
        \<or> (\<exists>e. res = Inl e) \<and> (tail = [] \<or> (\<exists>p m. tail = [Callback p m]))
          \<and> files st' =
              (files st)(temp_path d \<mapsto>
                 kept_bytes d k (files st) @ concat (map fst (take n chunks))))
     \<and> (sizes_fit_float r k (chunks_len chunks) \<longrightarrow>
          res = transfer_result d r (k + chunks_len chunks) fin
        \<and> n = length chunks
        \<and> (\<exists>m. is_progress_msg m \<and> message_speed m = None
               \<and> closing_events d r (k + chunks_len chunks) fin m =
                   FileClose (temp_path d) # tail)
        \<and> R = average_reports (time_at_start env) k r (last_progress_time st) k chunks
               @ (case fin of
                    Stream_ends \<Rightarrow> [(k + chunks_len chunks, r, 0)]
                  | Stream_raises \<Rightarrow> []))"
proof -
  let ?hs = "request_headers k"
  let ?mode = "if k > 0 then AB else WB"
  let ?got = "k + chunks_len chunks"
  let ?tp = "temp_path d"
  let ?t0 = "time_at_start env"
  let ?avg = "average_reports ?t0 k r (last_progress_time st) k chunks"
  let ?kept = "kept_bytes d k (files st)"
  let ?fit = "sizes_fit_float r k (chunks_len chunks)"
  let ?p = "if r > 0 then of_int ?got / of_int r * 100 else 0 :: real"
  let ?st1 = "(emit ClockRead st)
                \<lparr>start_time := Some ?t0, last_downloaded_bytes := k\<rparr>"
  let ?st3 = "open_file ?tp ?mode (emit (NetGet url ?hs) ?st1)"
  let ?T = "trace st @ [ClockRead, NetGet url ?hs, FileOpen ?tp ?mode]"
  have st3: "start_time ?st3 = Some ?t0"
    "files ?st3 ?tp = Some ?kept"
    "trace ?st3 = ?T"
    "downloaded_log ?st3 = downloaded_log st"
    "files ?st3 = (files st)(?tp \<mapsto> ?kept)"
    "report_log ?st3 = report_log st"
    "last_downloaded_bytes ?st3 = k"
    "last_progress_time ?st3 = last_progress_time st"
    by (simp_all add: open_file_files kept_bytes_def)
  obtain res4 st4 evs L n R4 where s4:
    "stream_chunks d r chunks k ?st3 = (res4, st4)"
    "trace st4 = trace ?st3 @ evs" "\<forall>e\<in>set evs. loop_event ?tp e"
    "n \<le> length chunks"
    "files st4 = (files ?st3)(?tp \<mapsto> ?kept @ concat (map fst (take n chunks)))"
    "downloaded_log st4 = downloaded_log ?st3 @ L"
    "sorted (k # L)"
    "report_log st4 = report_log ?st3 @ R4"
    "prefix R4 (average_reports ?t0 (last_downloaded_bytes ?st3) r (last_progress_time ?st3)
                  k chunks)"
    "res4 = Inr ?got \<and> n = length chunks
          \<and> R4 = average_reports ?t0 (last_downloaded_bytes ?st3) r
                    (last_progress_time ?st3) k chunks
        \<or> res4 = Inl OverflowError"
    "\<bar>real_of_int r\<bar> + \<bar>real_of_int k\<bar> + real_of_int (chunks_len chunks) < float_limit
          \<longrightarrow> res4 = Inr ?got"
    using stream_chunks_shape [OF st3(1) st3(2), of r chunks k] by blast
  have f4: "files st4 = (files st)(?tp \<mapsto> ?kept @ concat (map fst (take n chunks)))"
    using s4(5) st3(5) by simp
  have t4: "trace st4 = ?T @ evs"
    using s4(2) st3(3) by simp
  have l4: "downloaded_log st4 = downloaded_log st @ L"
    using s4(6) st3(4) by simp
  have r4: "report_log st4 = report_log st @ R4"
    using s4(8) st3(6) by simp
  have p4: "prefix R4 ?avg"
    using s4(9) unfolding st3(7,8) .
  have o4: "res4 = Inr ?got \<and> n = length chunks \<and> R4 = ?avg \<or> res4 = Inl OverflowError"
    using s4(10) unfolding st3(7,8) .
  have fit4: "?fit \<longrightarrow> res4 = Inr ?got"
    using s4(11) by (simp add: sizes_fit_float_def)
  let ?st5 = "close_file ?tp st4"
  have unfold: "transfer d env url r k st =
      (case (res4, st4) of
         (Inl e, st4) \<Rightarrow> (Inl (wrap_exception e), close_file ?tp st4)
       | (Inr downloaded1, st4) \<Rightarrow>
           (case fin of
              Stream_raises \<Rightarrow> (Inl (wrap_exception RequestException), close_file ?tp st4)
            | Stream_ends \<Rightarrow>
                (case report_progress downloaded1 r 0 (close_file ?tp st4) of
                   (Inl e, st6) \<Rightarrow> (Inl (wrap_exception e), st6)
                 | (Inr u, st6) \<Rightarrow>
                     if downloaded1 \<noteq> r then
                       (Inl (wrap_exception (Download_incomplete downloaded1 r)), st6)
                     else
                       (case rename_file ?tp (final_path d) st6 of
                          (Inl e, st7) \<Rightarrow> (Inl (wrap_exception e), st7)
                        | (Inr v, st7) \<Rightarrow>
                            (Inr (final_path d),
                             progress_callback 100 (Download_complete (final_path d)) st7)))))"
    unfolding transfer_def Let_def get get_result.case s4(1) ..
  from o4 show ?thesis
  proof (elim disjE conjE)
    assume bad: "res4 = Inl OverflowError"
    have run: "transfer d env url r k st = (Inl (Download_error OverflowError), ?st5)"
      unfolding unfold bad by simp
    have tr: "trace ?st5 = ?T @ evs @ FileClose ?tp # []" using t4 by simp
    have pre: "prefix R4 (?avg @ [(?got, r, 0)])" using p4 by (rule prefix_prefix)
    have nofit: "\<not> ?fit" using fit4 bad by auto
    show ?thesis
      using run tr s4(3,4) l4 s4(7) r4 pre f4 nofit
      by (intro exI [of _ "Inl (Download_error OverflowError)"] exI [of _ ?st5]
            exI [of _ evs] exI [of _ "[]"] exI [of _ n] exI [of _ L] exI [of _ R4]) simp
  next
    assume good: "res4 = Inr ?got" and nall: "n = length chunks" and rall: "R4 = ?avg"
    have f4': "files st4 = (files st)(?tp \<mapsto> ?kept @ concat (map fst chunks))"
      using f4 nall by simp
    show ?thesis
    proof (cases fin)
      case Stream_raises
      have run: "transfer d env url r k st = (Inl (Download_failed RequestException), ?st5)"
        unfolding unfold good Stream_raises by simp
      have tr: "trace ?st5 = ?T @ evs @ FileClose ?tp # []" using t4 by simp
      have pre: "prefix R4 (?avg @ [(?got, r, 0)])" using p4 by (rule prefix_prefix)
      have fitc: "transfer_result d r ?got Stream_raises = Inl (Download_failed RequestException)
          \<and> n = length chunks
          \<and> (\<exists>m. is_progress_msg m \<and> message_speed m = None
               \<and> closing_events d r ?got Stream_raises m = FileClose ?tp # [])
          \<and> R4 = ?avg"
      proof -
        have "\<exists>m. is_progress_msg m \<and> message_speed m = None
               \<and> closing_events d r ?got Stream_raises m = FileClose ?tp # []"
          by (rule exI [of _ "Progress 0 0 0"]) (simp add: closing_events_def)
        then show ?thesis
          using nall rall by (simp add: transfer_result_def)
      qed
      have fl: "files ?st5 = (files st)(?tp \<mapsto> ?kept @ concat (map fst (take n chunks)))"
        using f4 by simp
      show ?thesis
        using run tr s4(3,4) l4 s4(7) r4 pre fl fitc
        unfolding Stream_raises
        by (intro exI [of _ "Inl (Download_failed RequestException)"] exI [of _ ?st5]
              exI [of _ evs] exI [of _ "[]"] exI [of _ n] exI [of _ L] exI [of _ R4]) simp
    next
      case Stream_ends
      let ?R = "?avg @ [(?got, r, 0)]"
      let ?st5r = "log_report ?got r 0 ?st5"
      have r5: "report_log ?st5r = report_log st @ ?R" using r4 rall by simp
      consider (ok) m where
          "report_progress ?got r 0 ?st5 = (Inr (), progress_callback ?p m ?st5r)"
          "is_progress_msg m" "message_speed m = None"
        | (overflow)
          "report_progress ?got r 0 ?st5 = (Inl OverflowError, ?st5r)" "\<not> ?fit"
      proof (cases ?fit)
        case True
        have "\<bar>real_of_int ?got\<bar> \<le> \<bar>real_of_int k\<bar> + real_of_int (chunks_len chunks)"
          by (simp add: chunks_len_def)
        with True have "\<bar>real_of_int r\<bar> + \<bar>real_of_int ?got\<bar> < float_limit"
          by (simp add: sizes_fit_float_def)
        from report_progress_fits [OF this, of 0 ?st5] ok show ?thesis
          by (auto simp: speed_shown_def)
      next
        case False
        with report_progress_cases [of ?got r 0 ?st5] ok overflow show ?thesis
          by (auto simp: speed_shown_def)
      qed
      then show ?thesis
      proof cases
        case overflow
        have run: "transfer d env url r k st = (Inl (Download_error OverflowError), ?st5r)"
          unfolding unfold good Stream_ends using overflow(1) by simp
        have tr: "trace ?st5r = ?T @ evs @ FileClose ?tp # []" using t4 by simp
        have fl: "files ?st5r = (files st)(?tp \<mapsto> ?kept @ concat (map fst (take n chunks)))"
          using f4 by simp
        have lg: "downloaded_log ?st5r = downloaded_log st @ L" using l4 by simp
        show ?thesis
          using run tr s4(3,4) lg s4(7) r5 fl overflow(2)
          by (intro exI [of _ "Inl (Download_error OverflowError)"] exI [of _ ?st5r]
                exI [of _ evs] exI [of _ "[]"] exI [of _ n] exI [of _ L] exI [of _ ?R]) simp
      next
        case ok
        let ?st6 = "progress_callback ?p m ?st5r"
        have t6: "trace ?st6 = ?T @ evs @ FileClose ?tp # [Callback ?p m]" using t4 by simp
        have f6: "files ?st6 = (files st)(?tp \<mapsto> ?kept @ concat (map fst chunks))"
          using f4' by simp
        have l6: "downloaded_log ?st6 = downloaded_log st @ L" using l4 by simp
        have r6: "report_log ?st6 = report_log st @ ?R" using r5 by simp
        show ?thesis
        proof (cases "?got = r")
          case False
          have run: "transfer d env url r k st =
              (Inl (Download_error (Download_incomplete ?got r)), ?st6)"
            unfolding unfold good Stream_ends using ok(1) False by simp
          have fl: "files ?st6 = (files st)(?tp \<mapsto> ?kept @ concat (map fst (take n chunks)))"
            using f6 nall by simp
          have fitc: "transfer_result d r ?got Stream_ends =
                Inl (Download_error (Download_incomplete ?got r))
            \<and> n = length chunks
            \<and> (\<exists>m'. is_progress_msg m' \<and> message_speed m' = None
                 \<and> closing_events d r ?got Stream_ends m' = FileClose ?tp # [Callback ?p m])"
            using nall ok(2,3) False
            by (auto simp: transfer_result_def closing_events_def)
          show ?thesis
            using run t6 s4(3,4) l6 s4(7) r6 fl fitc False
            unfolding Stream_ends
            by (intro exI [of _ "Inl (Download_error (Download_incomplete ?got r))"]
                  exI [of _ ?st6] exI [of _ evs] exI [of _ "[Callback ?p m]"]
                  exI [of _ n] exI [of _ L] exI [of _ ?R]) simp
        next
          case True
          let ?st7 = "emit (FileRename ?tp (final_path d))
              (?st6\<lparr>files := (files ?st6)(?tp := None,
                  final_path d \<mapsto> ?kept @ concat (map fst chunks))\<rparr>)"
          let ?st8 = "progress_callback 100 (Download_complete (final_path d)) ?st7"
          let ?tail = "[Callback ?p m, FileRename ?tp (final_path d),
                        Callback 100 (Download_complete (final_path d))]"
          have rn: "rename_file ?tp (final_path d) ?st6 = (Inr (), ?st7)"
            using f6 by (simp add: rename_file_def)
          have run: "transfer d env url r k st = (Inr (final_path d), ?st8)"
            unfolding unfold good Stream_ends using ok(1) True rn by simp
          have t8: "trace ?st8 = ?T @ evs @ FileClose ?tp # ?tail" using t4 by simp
          have f8: "files ?st8 =
              (files st)(?tp := None, final_path d \<mapsto> ?kept @ concat (map fst chunks))"
            using f4' ne by simp
          have l8: "downloaded_log ?st8 = downloaded_log st @ L" using l4 by simp
          have r8: "report_log ?st8 = report_log st @ ?R" using r5 by simp
          have fitc: "transfer_result d r ?got Stream_ends = Inr (final_path d)
            \<and> n = length chunks
            \<and> (\<exists>m'. is_progress_msg m' \<and> message_speed m' = None
                 \<and> closing_events d r ?got Stream_ends m' = FileClose ?tp # ?tail)"
            using nall ok(2,3) True
            by (auto simp: transfer_result_def closing_events_def)
          show ?thesis
            using run t8 s4(3,4) l8 s4(7) r8 f8 fitc True
            unfolding Stream_ends
            by (intro exI [of _ "Inr (final_path d)"] exI [of _ ?st8] exI [of _ evs]
                  exI [of _ ?tail] exI [of _ n] exI [of _ L] exI [of _ ?R]) simp
        qed
      qed
    qed
  qed
qed

section \<open>The shape of every run of download\<close>

lemma str_split_not_Nil [simp]: "str_split sep s \<noteq> []"
  by (induction s) (simp_all split: list.splits)

lemma str_split_no_sep: "sep \<notin> set t \<Longrightarrow> str_split sep t = [t]"
  by (induction t) auto

lemma str_split_append:
  "sep \<notin> set t \<Longrightarrow>
     str_split sep (s @ t) = butlast (str_split sep s) @ [last (str_split sep s) @ t]"
proof (induction s)
  case Nil
  then show ?case by (simp add: str_split_no_sep)
next
  case (Cons c cs)
  obtain y ys where sp: "str_split sep cs = y # ys"
    by (cases "str_split sep cs") simp_all
  show ?case
    using Cons sp by (cases ys) simp_all
qed

lemma filter_butlast_last:
  assumes "xs \<noteq> []"
  shows "filter P xs = filter P (butlast xs) @ (if P (last xs) then [last xs] else [])"
proof -
  have "filter P (butlast xs @ [last xs]) =
          filter P (butlast xs) @ (if P (last xs) then [last xs] else [])"
    by simp
  then show ?thesis
    using assms by simp
qed

lemma length_str_join_snoc:
  "length (str_join sep (xs @ [y])) =
     (if xs = [] then length y else length (str_join sep xs) + length sep + length y)"
  by (induction sep xs rule: str_join.induct) simp_all

lemma path_root_append: "path_root (s @ CHR ''.'' # t) = path_root s"
proof (cases s)
  case Nil
  then show ?thesis by (simp add: path_root_def)
next
  case (Cons a s1)
  show ?thesis
  proof (cases s1)
    case Nil
    with Cons show ?thesis by (simp add: path_root_def)
  next
    case (Cons b s2)
    with \<open>s = a # s1\<close> show ?thesis
      by (cases s2) (simp_all add: path_root_def)
  qed
qed

lemma posixpath_join_append:
  "posixpath_join dir (f @ CHR ''.'' # t) = posixpath_join dir f @ CHR ''.'' # t"
  by (cases f) (simp_all add: posixpath_join_def)

text \<open>
  A suffix that starts with a dot and has no slash makes the path longer: it extends the
  last part, or adds a part when the string ends with a slash or with a part \<open>.\<close>.
\<close>

lemma Path_suffix_longer:
  assumes "CHR ''/'' \<notin> set t"
  shows "length (Path s) < length (Path (s @ CHR ''.'' # CHR ''d'' # t))"
proof -
  let ?t = "CHR ''.'' # CHR ''d'' # t"
  let ?sp = "str_split CHR ''/'' s"
  let ?P = "\<lambda>x. x \<noteq> [] \<and> x \<noteq> ''.''"
  let ?A = "filter ?P (butlast ?sp)"
  have p1: "path_parts s = ?A @ (if ?P (last ?sp) then [last ?sp] else [])"
    unfolding path_parts_def by (rule filter_butlast_last) simp
  have "CHR ''/'' \<notin> set ?t"
    using assms by simp
  then have "str_split CHR ''/'' (s @ ?t) = butlast ?sp @ [last ?sp @ ?t]"
    by (rule str_split_append)
  then have p2: "path_parts (s @ ?t) = ?A @ [last ?sp @ ?t]"
    by (simp add: path_parts_def)
  have rt: "path_root (s @ ?t) = path_root s"
    by (rule path_root_append)
  show ?thesis
    unfolding Path_def rt p1 p2 path_str_def
    by (simp add: length_str_join_snoc)
qed

lemma init_paths_differ:
  "temp_path (ModelDownloader_init mi dir) \<noteq> final_path (ModelDownloader_init mi dir)"
proof -
  have "posixpath_join dir (filename mi @ ''.download'') =
          posixpath_join dir (filename mi) @ ''.download''"
    by (rule posixpath_join_append)
  moreover have "length (Path (posixpath_join dir (filename mi))) <
      length (Path (posixpath_join dir (filename mi) @ ''.download''))"
    by (rule Path_suffix_longer) simp
  ultimately have "length (path_join dir (filename mi)) <
      length (path_join dir (filename mi @ ''.download''))"
    by (simp add: path_join_def)
  then show ?thesis
    by (auto simp: ModelDownloader_init_def)
qed

lemma get_remote_size_eq:
  "get_remote_size env url st = (fst (get_remote_size env url st), emit (NetHead url) st)"
  by (simp add: get_remote_size_def Let_def split: head_result.splits option.splits)

lemma download_size_error:
  assumes "fst (get_remote_size env (get_download_url (model_info d)) st) = Inl e"
  shows "download d env resume st = (Inl e, emit (NetHead (get_download_url (model_info d))) st)"
  using assms get_remote_size_eq [of env "get_download_url (model_info d)" st]
  by (simp add: download_def Let_def)

lemma download_size_zero:
  assumes "fst (get_remote_size env (get_download_url (model_info d)) st) = Inr 0"
  shows "download d env resume st =
           (Inl Could_not_determine_remote_file_size,
            emit (NetHead (get_download_url (model_info d))) st)"
  using assms get_remote_size_eq [of env "get_download_url (model_info d)" st]
  by (simp add: download_def Let_def)

lemma check_existing_match:
  assumes "final_matches d r (files st)"
  shows "check_existing d r st =
           (Inr True,
            st\<lparr>trace := trace st @
                [FileExists (final_path d), FileExists (final_path d), FileStat (final_path d),
                 Callback 100 (Model_already_downloaded (final_path d))]\<rparr>)"
  using assms
  by (cases "files st (final_path d)")
     (auto simp: final_matches_def check_existing_def verify_download_def path_exists_def
        st_size_def emit_def progress_callback_def Let_def)

lemma download_short_circuit:
  assumes "fst (get_remote_size env (get_download_url (model_info d)) st) = Inr r"
      and "r \<noteq> 0"
      and "final_matches d r (files st)"
  shows "download d env resume st =
           (Inr (final_path d), st\<lparr>trace := trace st @ short_circuit_events d\<rparr>)"
proof -
  let ?url = "get_download_url (model_info d)"
  let ?st2 = "progress_callback 0 (Starting_download (display_name (model_info d)))
                (emit (NetHead ?url) st)"
  have "final_matches d r (files ?st2)" using assms(3) by simp
  from check_existing_match [OF this] assms(1,2) get_remote_size_eq [of env ?url st]
  show ?thesis
    by (simp add: download_def Let_def short_circuit_events_def emit_def progress_callback_def)
qed

lemma download_reaches_transfer:
  assumes "fst (get_remote_size env (get_download_url (model_info d)) st) = Inr r"
      and "r \<noteq> 0"
      and "\<not> final_matches d r (files st)"
  shows "\<exists>st4. download d env resume st =
                 transfer d env (get_download_url (model_info d)) r
                   (resume_offset d env resume (files st)) st4
     \<and> trace st4 = trace st @ prelude_events d env resume (files st)
     \<and> files st4 =
         (if discards_partial d env resume (files st) then (files st)(temp_path d := None)
          else files st)
     \<and> downloaded_log st4 = downloaded_log st @ prelude_log d env resume (files st)
     \<and> last_progress_time st4 = last_progress_time st
     \<and> report_log st4 = report_log st"
proof -
  let ?url = "get_download_url (model_info d)"
  let ?st2 = "progress_callback 0 (Starting_download (display_name (model_info d)))
                (emit (NetHead ?url) st)"
  let ?st3 = "?st2\<lparr>trace := trace ?st2 @ existing_events d (files ?st2)\<rparr>"
  have nm: "\<forall>c. files ?st2 (final_path d) = Some c \<longrightarrow> int (length c) \<noteq> r"
    using assms(3) by (auto simp: final_matches_def)
  have ce: "check_existing d r ?st2 = (Inr False, ?st3)"
    by (rule check_existing_mismatch [OF nm])
  obtain st4 where s4:
    "partial_check d env ?url resume ?st3 = (Inr (resume_offset d env resume (files ?st3)), st4)"
    "trace st4 = trace ?st3 @ partial_events d env ?url resume (files ?st3)"
    "files st4 =
       (if temp_size d (files ?st3) > 0 \<and> \<not> (resume \<and> range_supported env)
        then (files ?st3)(temp_path d := None) else files ?st3)"
    "downloaded_log st4 =
       downloaded_log ?st3 @
         (if temp_size d (files ?st3) > 0 \<and> \<not> (resume \<and> range_supported env)
          then [temp_size d (files ?st3), 0] else [resume_offset d env resume (files ?st3)])"
    "last_progress_time st4 = last_progress_time ?st3"
    "report_log st4 = report_log ?st3"
    using partial_check_shape [of d env ?url resume ?st3] by blast
  have g: "get_remote_size env ?url st = (Inr r, emit (NetHead ?url) st)"
    using assms(1) get_remote_size_eq [of env ?url st] by simp
  have f3: "files ?st3 = files st" by simp
  have run: "download d env resume st =
               transfer d env ?url r (resume_offset d env resume (files st)) st4"
    unfolding download_def Let_def g prod.case sum.case ce s4(1) bool.case f3
    using assms(2) by simp
  have t3: "trace ?st3 =
      trace st @ [NetHead ?url, Callback 0 (Starting_download (display_name (model_info d)))]
        @ existing_events d (files st)"
    by simp
  have l3: "downloaded_log ?st3 = downloaded_log st" by simp
  have tr: "trace st4 = trace st @ prelude_events d env resume (files st)"
    using s4(2) unfolding f3 t3 prelude_events_def by simp
  have fl: "files st4 =
         (if discards_partial d env resume (files st) then (files st)(temp_path d := None)
          else files st)"
    using s4(3) unfolding f3 discards_partial_def by simp
  have lg: "downloaded_log st4 = downloaded_log st @ prelude_log d env resume (files st)"
    using s4(4) unfolding f3 l3 prelude_log_def discards_partial_def by simp
  have lp: "last_progress_time st4 = last_progress_time st" using s4(5) by simp
  have rl: "report_log st4 = report_log st" using s4(6) by simp
  show ?thesis using run tr fl lg lp rl by blast
qed

lemma kept_bytes_after_prelude:
  "kept_bytes d (resume_offset d env resume fs)
     (if discards_partial d env resume fs then fs(temp_path d := None) else fs) =
   kept_bytes d (resume_offset d env resume fs) fs"
  by (simp add: kept_bytes_def resume_offset_def discards_partial_def)

lemma download_get_raises:
  assumes "fst (get_remote_size env (get_download_url (model_info d)) st) = Inr r"
      and "r \<noteq> 0"
      and "\<not> final_matches d r (files st)"
      and "get_response env (request_headers (resume_offset d env resume (files st))) = Get_raises"
  shows "\<exists>st'. download d env resume st = (Inl (Download_failed RequestException), st')
     \<and> trace st' =
         trace st @ prelude_events d env resume (files st)
           @ [ClockRead,
              NetGet (get_download_url (model_info d))
                (request_headers (resume_offset d env resume (files st)))]
     \<and> files st' =
         (if discards_partial d env resume (files st) then (files st)(temp_path d := None)
          else files st)
     \<and> downloaded_log st' = downloaded_log st @ prelude_log d env resume (files st)
     \<and> report_log st' = report_log st"
proof -
  let ?url = "get_download_url (model_info d)"
  let ?k = "resume_offset d env resume (files st)"
  obtain st4 where s4:
    "download d env resume st = transfer d env ?url r ?k st4"
    "trace st4 = trace st @ prelude_events d env resume (files st)"
    "files st4 =
         (if discards_partial d env resume (files st) then (files st)(temp_path d := None)
          else files st)"
    "downloaded_log st4 = downloaded_log st @ prelude_log d env resume (files st)"
    "report_log st4 = report_log st"
    using download_reaches_transfer [OF assms(1-3), of resume] by blast
  obtain st' where s5:
    "transfer d env ?url r ?k st4 = (Inl (Download_failed RequestException), st')"
    "trace st' = trace st4 @ [ClockRead, NetGet ?url (request_headers ?k)]"
    "files st' = files st4"
    "downloaded_log st' = downloaded_log st4"
    "report_log st' = report_log st4"
    using transfer_get_raises [OF assms(4), where d = d and url = ?url and r = r and st = st4]
    by blast
  show ?thesis
    using s4 s5 by simp
qed

lemma download_stream_shape:
  assumes "fst (get_remote_size env (get_download_url (model_info d)) st) = Inr r"
      and "r \<noteq> 0"
      and "\<not> final_matches d r (files st)"
      and "get_response env (request_headers (resume_offset d env resume (files st))) =
             Get_ok chunks fin"
      and "temp_path d \<noteq> final_path d"
  shows "\<exists>res st' evs tail n L R.
       download d env resume st = (res, st')
     \<and> trace st' =
         trace st @ prelude_events d env resume (files st)
           @ [ClockRead,
              NetGet (get_download_url (model_info d))
                (request_headers (resume_offset d env resume (files st))),
              FileOpen (temp_path d)
                (if resume_offset d env resume (files st) > 0 then AB else WB)]
           @ evs @ FileClose (temp_path d) # tail
     \<and> (\<forall>e\<in>set evs. loop_event (temp_path d) e)
     \<and> n \<le> length chunks
     \<and> downloaded_log st' = downloaded_log st @ prelude_log d env resume (files st) @ L
     \<and> sorted (resume_offset d env resume (files st) # L)
     \<and> report_log st' = report_log st @ R
     \<and> prefix R
          (average_reports (time_at_start env) (resume_offset d env resume (files st)) r
             (last_progress_time st) (resume_offset d env resume (files st)) chunks
           @ [(resume_offset d env resume (files st) + chunks_len chunks, r, 0)])
     \<and> (res = Inr (final_path d) \<and> fin = Stream_ends
          \<and> resume_offset d env resume (files st) + chunks_len chunks = r
          \<and> (\<exists>p m. tail =
                [Callback p m, FileRename (temp_path d) (final_path d),
                 Callback 100 (Download_complete (final_path d))])
          \<and> files st' =
              (files st)(temp_path d := None,
                 final_path d \<mapsto>
                   kept_bytes d (resume_offset d env resume (files st)) (files st)
                     @ concat (map fst chunks))
        \<or> (\<exists>e. res = Inl e) \<and> (tail = [] \<or> (\<exists>p m. tail = [Callback p m]))
          \<and> files st' =
              (files st)(temp_path d \<mapsto>
                 kept_bytes d (resume_offset d env resume (files st)) (files st)
                   @ concat (map fst (take n chunks))))
     \<and> (sizes_fit_float r (resume_offset d env resume (files st)) (chunks_len chunks) \<longrightarrow>
          res = transfer_result d r
                  (resume_offset d env resume (files st) + chunks_len chunks) fin
        \<and> n = length chunks
        \<and> (\<exists>m. is_progress_msg m \<and> message_speed m = None
               \<and> closing_events d r
                    (resume_offset d env resume (files st) + chunks_len chunks) fin m =
                   FileClose (temp_path d) # tail)
        \<and> R = average_reports (time_at_start env) (resume_offset d env resume (files st)) r
                 (last_progress_time st) (resume_offset d env resume (files st)) chunks
               @ (case fin of
                    Stream_ends \<Rightarrow>
                      [(resume_offset d env resume (files st) + chunks_len chunks, r, 0)]
                  | Stream_raises \<Rightarrow> []))"
proof -
  let ?url = "get_download_url (model_info d)"
  let ?k = "resume_offset d env resume (files st)"
  let ?fs4 = "if discards_partial d env resume (files st) then (files st)(temp_path d := None)
              else files st"
  obtain st4 where s4:
    "download d env resume st = transfer d env ?url r ?k st4"
    "trace st4 = trace st @ prelude_events d env resume (files st)"
    "files st4 = ?fs4"
    "downloaded_log st4 = downloaded_log st @ prelude_log d env resume (files st)"
    "last_progress_time st4 = last_progress_time st"
    "report_log st4 = report_log st"
    using download_reaches_transfer [OF assms(1-3), of resume] by blast
  have kb: "kept_bytes d ?k ?fs4 = kept_bytes d ?k (files st)"
    by (rule kept_bytes_after_prelude)
  have up: "?fs4(temp_path d \<mapsto> x) = (files st)(temp_path d \<mapsto> x)"
    "?fs4(temp_path d := None, final_path d \<mapsto> x) =
       (files st)(temp_path d := None, final_path d \<mapsto> x)" for x
    by simp_all
  from transfer_stream_shape [OF assms(4,5), where url = ?url and r = r and st = st4]
  show ?thesis
    unfolding s4(1) s4(2) s4(3) s4(4) s4(5) s4(6) kb up append_assoc .
qed

lemma download_cases [consumes 1, case_names no_size short_circuit get_raises streamed]:
  assumes ne: "temp_path d \<noteq> final_path d"
  obtains
    (no_size) e where
      "download d env resume st = (Inl e, emit (NetHead (get_download_url (model_info d))) st)"
      "e = Could_not_determine_remote_file_size \<or> (\<exists>c. e = Could_not_get_remote_file_size c)"
  | (short_circuit) r where
      "fst (get_remote_size env (get_download_url (model_info d)) st) = Inr r"
      "r \<noteq> 0" "final_matches d r (files st)"
      "download d env resume st =
         (Inr (final_path d), st\<lparr>trace := trace st @ short_circuit_events d\<rparr>)"
  | (get_raises) r st' where
      "fst (get_remote_size env (get_download_url (model_info d)) st) = Inr r"
      "r \<noteq> 0" "\<not> final_matches d r (files st)"
      "get_response env (request_headers (resume_offset d env resume (files st))) = Get_raises"
      "download d env resume st = (Inl (Download_failed RequestException), st')"
      "trace st' =
         trace st @ prelude_events d env resume (files st)
           @ [ClockRead,
              NetGet (get_download_url (model_info d))
                (request_headers (resume_offset d env resume (files st)))]"
      "files st' =
         (if discards_partial d env resume (files st) then (files st)(temp_path d := None)
          else files st)"
      "downloaded_log st' = downloaded_log st @ prelude_log d env resume (files st)"
      "report_log st' = report_log st"
  | (streamed) r chunks fin res st' evs tail n L R where
      "fst (get_remote_size env (get_download_url (model_info d)) st) = Inr r"
      "r \<noteq> 0" "\<not> final_matches d r (files st)"
      "get_response env (request_headers (resume_offset d env resume (files st))) =
         Get_ok chunks fin"
      "download d env resume st = (res, st')"
      "trace st' =
         trace st @ prelude_events d env resume (files st)
           @ [ClockRead,
              NetGet (get_download_url (model_info d))
                (request_headers (resume_offset d env resume (files st))),
              FileOpen (temp_path d)
                (if resume_offset d env resume (files st) > 0 then AB else WB)]
           @ evs @ FileClose (temp_path d) # tail"
      "\<forall>e\<in>set evs. loop_event (temp_path d) e"
      "n \<le> length chunks"
      "downloaded_log st' = downloaded_log st @ prelude_log d env resume (files st) @ L"
      "sorted (resume_offset d env resume (files st) # L)"
      "report_log st' = report_log st @ R"
      "prefix R
          (average_reports (time_at_start env) (resume_offset d env resume (files st)) r
             (last_progress_time st) (resume_offset d env resume (files st)) chunks
           @ [(resume_offset d env resume (files st) + chunks_len chunks, r, 0)])"
      "res = Inr (final_path d) \<and> fin = Stream_ends
          \<and> resume_offset d env resume (files st) + chunks_len chunks = r
          \<and> (\<exists>p m. tail =
                [Callback p m, FileRename (temp_path d) (final_path d),
                 Callback 100 (Download_complete (final_path d))])
          \<and> files st' =
              (files st)(temp_path d := None,
                 final_path d \<mapsto>
                   kept_bytes d (resume_offset d env resume (files st)) (files st)
                     @ concat (map fst chunks))
        \<or> (\<exists>e. res = Inl e) \<and> (tail = [] \<or> (\<exists>p m. tail = [Callback p m]))
          \<and> files st' =
              (files st)(temp_path d \<mapsto>
                 kept_bytes d (resume_offset d env resume (files st)) (files st)
                   @ concat (map fst (take n chunks)))"
      "sizes_fit_float r (resume_offset d env resume (files st)) (chunks_len chunks) \<longrightarrow>
          res = transfer_result d r
                  (resume_offset d env resume (files st) + chunks_len chunks) fin
        \<and> n = length chunks
        \<and> (\<exists>m. is_progress_msg m \<and> message_speed m = None
               \<and> closing_events d r
                    (resume_offset d env resume (files st) + chunks_len chunks) fin m =
                   FileClose (temp_path d) # tail)
        \<and> R = average_reports (time_at_start env) (resume_offset d env resume (files st)) r
                 (last_progress_time st) (resume_offset d env resume (files st)) chunks
               @ (case fin of
                    Stream_ends \<Rightarrow>
                      [(resume_offset d env resume (files st) + chunks_len chunks, r, 0)]
                  | Stream_raises \<Rightarrow> [])"
proof (cases "fst (get_remote_size env (get_download_url (model_info d)) st)")
  case (Inl e)
  have "\<exists>c. e = Could_not_get_remote_file_size c"
    using Inl by (auto simp: get_remote_size_def Let_def split: head_result.splits option.splits)
  with download_size_error [OF Inl] no_size show ?thesis by blast
next
  case (Inr r)
  show ?thesis
  proof (cases "r = 0")
    case True
    with Inr download_size_zero [of env d st resume] no_size show ?thesis by blast
  next
    case nz: False
    show ?thesis
    proof (cases "final_matches d r (files st)")
      case True
      from short_circuit [OF Inr nz True download_short_circuit [OF Inr nz True]]
      show ?thesis .
    next
      case nm: False
      show ?thesis
      proof (cases "get_response env (request_headers (resume_offset d env resume (files st)))")
        case Get_raises
        from download_get_raises [OF Inr nz nm Get_raises]
        obtain st' where
          "download d env resume st = (Inl (Download_failed RequestException), st')"
          "trace st' =
             trace st @ prelude_events d env resume (files st)
               @ [ClockRead,
                  NetGet (get_download_url (model_info d))
                    (request_headers (resume_offset d env resume (files st)))]"
          "files st' =
             (if discards_partial d env resume (files st) then (files st)(temp_path d := None)
              else files st)"
          "downloaded_log st' = downloaded_log st @ prelude_log d env resume (files st)"
          "report_log st' = report_log st"
          by blast
        from get_raises [OF Inr nz nm Get_raises this] show ?thesis .
      next
        case (Get_ok chunks fin)
        from download_stream_shape [OF Inr nz nm Get_ok ne]
        show ?thesis using streamed [OF Inr nz nm Get_ok] by blast
      qed
    qed
  qed
qed

section \<open>The final file already exists\<close>

lemmas py_int_defs =
  py_int_def strip_def is_space_def parse_unsigned_def is_digit_def digit_value_def
  max_str_digits_def

lemma demo_paths:
  "path_join ''out'' ''m.gguf'' = ''out/m.gguf''"
  "path_join ''out'' ''m.gguf.download'' = ''out/m.gguf.download''"
  by (simp_all add: path_join_def Path_def posixpath_join_def path_root_def path_parts_def
        path_str_def)

lemmas demo_defs =
  demo_info_def demo_downloader_def demo_env_def demo_chunks_def initial_state_def
  ModelDownloader_init_def demo_paths get_download_url_def

lemma new_events_append [simp]:
  "trace st' = trace st @ evs \<Longrightarrow> new_events st st' = evs"
  by (simp add: new_events_def)

lemma demo_size:
  "fst (get_remote_size (demo_env (Some ''16'') ranges) url st) = Inr 16"
  "fst (get_remote_size (demo_env (Some ''3'') ranges) url st) = Inr 3"
  "fst (get_remote_size (demo_env None ranges) url st) = Inr 0"
  by (simp_all add: get_remote_size_def demo_env_def py_int_defs)

text \<open>
  C1 (as amended). When the resolved remote size is not 0 and the final file exists
  with exactly that size, \<open>download\<close> returns the final path, issues the HEAD request
  and no GET request, leaves the files alone and invokes the callback exactly twice:
  with percent 0 for the start message and then with percent 100.
\<close>

theorem download_existing_short_circuit:
  assumes "fst (get_remote_size env (get_download_url (model_info d)) st) = Inr r"
      and "r \<noteq> 0"
      and "files st (final_path d) = Some c"
      and "int (length c) = r"
  shows "fst (download d env resume st) = Inr (final_path d)
     \<and> new_events st (snd (download d env resume st)) = short_circuit_events d
     \<and> filter is_get (new_events st (snd (download d env resume st))) = []
     \<and> filter is_head (new_events st (snd (download d env resume st))) =
         [NetHead (get_download_url (model_info d))]
     \<and> callback_percents (new_events st (snd (download d env resume st))) = [0, 100]
     \<and> files (snd (download d env resume st)) = files st"
proof -
  have "final_matches d r (files st)"
    using assms(3,4) by (simp add: final_matches_def)
  from download_short_circuit [OF assms(1,2) this, of resume]
  show ?thesis
    by (simp add: short_circuit_events_def callback_percents_def List.map_filter_def)
qed

theorem download_existing_short_circuit_witness:
  "fst (download demo_downloader (demo_env (Some ''3'') None) True
          (initial_state [''out/m.gguf'' \<mapsto> [1, 2, 3]])) = Inr ''out/m.gguf''
   \<and> callback_percents
       (trace (snd (download demo_downloader (demo_env (Some ''3'') None) True
                      (initial_state [''out/m.gguf'' \<mapsto> [1, 2, 3]])))) = [0, 100]"
  using download_existing_short_circuit
    [of "demo_env (Some ''3'') None" demo_downloader
        "initial_state [''out/m.gguf'' \<mapsto> [1, 2, 3]]" 3 "[1, 2, 3]" True]
    demo_size(2) [of None "get_download_url (model_info demo_downloader)"
        "initial_state [''out/m.gguf'' \<mapsto> [1, 2, 3]]"]
  by (simp add: demo_downloader_def demo_info_def ModelDownloader_init_def demo_paths
        initial_state_def new_events_def short_circuit_events_def callback_percents_def
        List.map_filter_def)

theorem download_existing_callback_count_counterexample:
  "files (initial_state [''out/m.gguf'' \<mapsto> [1, 2, 3]]) (final_path demo_downloader)
     = Some [1, 2, 3]
   \<and> fst (get_remote_size (demo_env (Some ''3'') None)
            (get_download_url (model_info demo_downloader))
            (initial_state [''out/m.gguf'' \<mapsto> [1, 2, 3]])) = Inr 3
   \<and> length (callback_percents
        (trace (snd (download demo_downloader (demo_env (Some ''3'') None) True
                       (initial_state [''out/m.gguf'' \<mapsto> [1, 2, 3]]))))) = 2"
proof -
  let ?st = "initial_state [''out/m.gguf'' \<mapsto> [1, 2, 3]]"
  let ?env = "demo_env (Some ''3'') None"
  have fm: "final_matches demo_downloader 3 (files ?st)"
    by (simp add: final_matches_def demo_defs)
  have sz: "fst (get_remote_size ?env (get_download_url (model_info demo_downloader)) ?st) = Inr 3"
    by (rule demo_size)
  from download_short_circuit [OF sz _ fm, of True] sz
  show ?thesis
    by (simp add: short_circuit_events_def callback_percents_def List.map_filter_def demo_defs)
qed

section \<open>Resolving the remote size\<close>

lemma get_remote_size_value:
  "fst (get_remote_size env url st) =
     (case size_probe env of
        Head_raises \<Rightarrow> Inl (Could_not_get_remote_file_size RequestException)
      | Head_ok cl ar \<Rightarrow>
          (case cl of
             None \<Rightarrow> Inr 0
           | Some s \<Rightarrow>
               (case py_int s of
                  None \<Rightarrow> Inl (Could_not_get_remote_file_size ValueError)
                | Some n \<Rightarrow> Inr n)))"
  by (simp add: get_remote_size_def Let_def split: head_result.splits option.splits)

text \<open>
  C3 (as amended). \<open>get_remote_size\<close> fails with the remote-size exception when the
  HEAD request raises (an error or a timeout) and when the length header is present but
  is not an integer; when the header is absent it returns 0 and does not fail. Whenever
  the resolved size is 0, \<open>download\<close> fails with the remote-size exception after the
  HEAD request alone: it performs no file operation and leaves the files as they were.
\<close>

theorem remote_size_failures:
  "(size_probe env = Head_raises \<longrightarrow>
      fst (get_remote_size env url st) = Inl (Could_not_get_remote_file_size RequestException))
   \<and> (size_probe env = Head_ok (Some s) ar \<and> py_int s = None \<longrightarrow>
      fst (get_remote_size env url st) = Inl (Could_not_get_remote_file_size ValueError))
   \<and> (size_probe env = Head_ok None ar \<longrightarrow> fst (get_remote_size env url st) = Inr 0)
   \<and> (fst (get_remote_size env (get_download_url (model_info d)) st) = Inr 0 \<longrightarrow>
        fst (download d env resume st) = Inl Could_not_determine_remote_file_size
        \<and> is_RemoteMetadataError Could_not_determine_remote_file_size
        \<and> new_events st (snd (download d env resume st)) =
            [NetHead (get_download_url (model_info d))]
        \<and> filter is_file_io (new_events st (snd (download d env resume st))) = []
        \<and> files (snd (download d env resume st)) = files st)"
proof -
  have "fst (get_remote_size env (get_download_url (model_info d)) st) = Inr 0 \<Longrightarrow>
        download d env resume st =
          (Inl Could_not_determine_remote_file_size,
           emit (NetHead (get_download_url (model_info d))) st)"
    by (rule download_size_zero)
  then show ?thesis
    by (auto simp: get_remote_size_value)
qed

theorem remote_size_failures_witness:
  "fst (get_remote_size (demo_env (Some ''abc'') None) ''u'' (initial_state Map.empty)) =
     Inl (Could_not_get_remote_file_size ValueError)
   \<and> fst (get_remote_size (demo_env None None) ''u'' (initial_state Map.empty)) = Inr 0
   \<and> fst (get_remote_size
            ((demo_env None None)\<lparr>size_probe := Head_raises\<rparr>) ''u'' (initial_state Map.empty)) =
       Inl (Could_not_get_remote_file_size RequestException)
   \<and> fst (download demo_downloader (demo_env None None) True (initial_state Map.empty)) =
       Inl Could_not_determine_remote_file_size
   \<and> filter is_file_io
       (trace (snd (download demo_downloader (demo_env None None) True
                      (initial_state Map.empty)))) = []"
  using
    remote_size_failures
      [of "demo_env (Some ''abc'') None" "''u''" "initial_state Map.empty" "''abc''" None]
    remote_size_failures
      [of "demo_env None None" "''u''" "initial_state Map.empty" _ None demo_downloader True]
    remote_size_failures
      [of "(demo_env None None)\<lparr>size_probe := Head_raises\<rparr>" "''u''" "initial_state Map.empty"]
    demo_size(3) [of None "get_download_url (model_info demo_downloader)"
        "initial_state Map.empty"]
  by (simp add: demo_env_def py_int_defs new_events_def initial_state_def)

theorem remote_size_absent_header_counterexample:
  "size_probe (demo_env None None) = Head_ok None None
   \<and> fst (get_remote_size (demo_env None None) ''u'' (initial_state Map.empty)) = Inr 0"
  by (simp add: get_remote_size_value demo_env_def)

section \<open>Incomplete transfers\<close>

lemma loop_event_kinds:
  "loop_event tp e \<Longrightarrow> \<not> is_get e \<and> \<not> is_rename e \<and> \<not> is_unlink e \<and> \<not> is_head e"
  by (cases e) simp_all

lemma filter_loop_events:
  assumes "\<forall>e\<in>set evs. loop_event tp e"
  shows "filter is_get evs = []" and "filter is_rename evs = []"
    and "filter is_unlink evs = []"
  using assms loop_event_kinds by (auto simp: filter_empty_conv)

lemma prelude_events_kinds:
  "filter is_get (prelude_events d env resume fs) = []"
  "filter is_rename (prelude_events d env resume fs) = []"
  by (simp_all add: prelude_events_def existing_events_def partial_events_def)

lemmas model_defs =
  download_def get_remote_size_def check_existing_def verify_download_def partial_check_def
  check_resume_support_def transfer_def request_headers_def process_chunk_def
  transfer_speed_def report_progress_def progress_percent_def progress_message_def
  py_truediv_def py_int_truediv_def py_float_def wrap_exception_def path_exists_def
  st_size_def unlink_missing_ok_def open_file_def write_file_def close_file_def
  rename_file_def emit_def progress_callback_def assign_downloaded_def log_report_def
  float_limit_def Let_def

text \<open>
  Inside the float range the mismatch is reported as the code intends: when the stream
  ends with a byte count that differs from the resolved size, \<open>download\<close> fails with
  the exception for an incomplete download, performs no rename, leaves the final path
  as it was and leaves the temporary file on disk with the bytes written to it.
\<close>

lemma download_incomplete_in_float_range:
  fixes mi dir
  defines "d \<equiv> ModelDownloader_init mi dir"
  assumes "fst (get_remote_size env (get_download_url (model_info d)) st) = Inr r"
      and "r \<noteq> 0"
      and "\<not> final_matches d r (files st)"
      and "get_response env (request_headers (resume_offset d env resume (files st))) =
             Get_ok chunks Stream_ends"
      and "resume_offset d env resume (files st) + chunks_len chunks \<noteq> r"
      and "sizes_fit_float r (resume_offset d env resume (files st)) (chunks_len chunks)"
  shows "fst (download d env resume st) =
           Inl (Download_error
                  (Download_incomplete
                     (resume_offset d env resume (files st) + chunks_len chunks) r))
     \<and> filter is_rename (new_events st (snd (download d env resume st))) = []
     \<and> files (snd (download d env resume st)) (final_path d) = files st (final_path d)
     \<and> files (snd (download d env resume st)) (temp_path d) =
         Some (kept_bytes d (resume_offset d env resume (files st)) (files st)
                 @ concat (map fst chunks))
     \<and> filter is_unlink (after_get (new_events st (snd (download d env resume st)))) = []"
proof -
  let ?k = "resume_offset d env resume (files st)"
  let ?got = "?k + chunks_len chunks"
  have ne: "temp_path d \<noteq> final_path d"
    unfolding d_def by (rule init_paths_differ)
  obtain res st' evs tail n m where run:
    "download d env resume st = (res, st')"
    "trace st' =
       trace st @ prelude_events d env resume (files st)
         @ [ClockRead, NetGet (get_download_url (model_info d)) (request_headers ?k),
            FileOpen (temp_path d) (if ?k > 0 then AB else WB)]
         @ evs @ FileClose (temp_path d) # tail"
    "\<forall>e\<in>set evs. loop_event (temp_path d) e"
    "res = Inr (final_path d) \<and> fin' = Stream_ends \<and> ?got = r
          \<and> (\<exists>p m. tail =
                [Callback p m, FileRename (temp_path d) (final_path d),
                 Callback 100 (Download_complete (final_path d))])
          \<and> files st' =
              (files st)(temp_path d := None,
                 final_path d \<mapsto> kept_bytes d ?k (files st) @ concat (map fst chunks))
        \<or> (\<exists>e. res = Inl e) \<and> (tail = [] \<or> (\<exists>p m. tail = [Callback p m]))
          \<and> files st' =
              (files st)(temp_path d \<mapsto>
                 kept_bytes d ?k (files st) @ concat (map fst (take n chunks)))"
    "res = transfer_result d r ?got Stream_ends" "n = length chunks"
    "closing_events d r ?got Stream_ends m = FileClose (temp_path d) # tail"
    if "fin' = Stream_ends" for fin'
    using download_stream_shape [OF assms(2-5) ne] assms(7) that by blast
  note run = run [OF refl]
  have res: "res = Inl (Download_error (Download_incomplete ?got r))"
    using run(5) assms(6) by (simp add: transfer_result_def)
  have fl: "files st' =
      (files st)(temp_path d \<mapsto> kept_bytes d ?k (files st) @ concat (map fst chunks))"
    using run(4,6) res by auto
  have tl: "tail = [Callback (if r > 0 then of_int ?got / of_int r * 100 else 0) m]"
    using run(7) assms(6) by (simp add: closing_events_def)
  have ren: "filter is_rename (new_events st st') = []"
    using run(2) filter_loop_events(2) [OF run(3)]
    by (simp add: prelude_events_kinds tl)
  have "new_events st st' =
       (prelude_events d env resume (files st) @ [ClockRead])
         @ NetGet (get_download_url (model_info d)) (request_headers ?k)
         # (FileOpen (temp_path d) (if ?k > 0 then AB else WB)
         # evs @ FileClose (temp_path d) # tail)"
    using run(2) by simp
  then have "after_get (new_events st st') =
        NetGet (get_download_url (model_info d)) (request_headers ?k)
         # (FileOpen (temp_path d) (if ?k > 0 then AB else WB)
         # evs @ FileClose (temp_path d) # tail)"
    using prelude_events_kinds(1) [of d env resume "files st"]
    by (simp add: after_get_def dropWhile_append3 filter_empty_conv)
  then have unl: "filter is_unlink (after_get (new_events st st')) = []"
    using filter_loop_events(3) [OF run(3)] by (simp add: tl)
  show ?thesis
    using res ren fl unl run(1) ne by simp
qed

lemma py_int_power_of_ten:
  assumes "n < 4300"
  shows "py_int (CHR ''1'' # replicate n CHR ''0'') = Some (10 ^ n)"
proof -
  have pd: "parse_digits (replicate m CHR ''0'') acc = Some (acc * 10 ^ m)" for m acc
    by (induction m arbitrary: acc) (simp_all add: is_digit_def digit_value_def)
  have d0: "is_digit CHR ''0''" "is_digit CHR ''1''" "\<not> is_space CHR ''0''" "\<not> is_space CHR ''1''"
    by (simp_all add: is_digit_def is_space_def)
  have "dropWhile is_space (replicate n CHR ''0'' @ [CHR ''1'']) =
          replicate n CHR ''0'' @ [CHR ''1'']"
    using d0 by (cases n) simp_all
  then have st: "strip (CHR ''1'' # replicate n CHR ''0'') = CHR ''1'' # replicate n CHR ''0''"
    using d0 by (simp add: strip_def)
  have fl: "filter is_digit (replicate n CHR ''0'') = replicate n CHR ''0''"
    using d0 by simp
  show ?thesis
    using assms d0 pd [of n 1]
    by (simp add: py_int_def st parse_unsigned_def fl max_str_digits_def digit_value_def)
qed

lemma huge_ratio: "float_limit \<le> \<bar>real_of_int (10 ^ 400) / real_of_int (1024 * 1024)\<bar>"
proof -
  have "(2::real) ^ 1200 = 8 ^ 400" by (simp add: power_mult [symmetric, of 2 3 400])
  also have "\<dots> \<le> 10 ^ 400" by (rule power_mono) simp_all
  finally have a: "(2::real) ^ 1200 \<le> 10 ^ 400" .
  have "float_limit * 2 ^ 20 \<le> (2::real) ^ 1024 * 2 ^ 20"
    by (simp add: float_limit_def)
  also have "\<dots> = 2 ^ 1044" by (simp add: power_add [symmetric])
  also have "\<dots> \<le> (2::real) ^ 1200" by (rule power_increasing) simp_all
  finally have "float_limit * 2 ^ 20 \<le> (10::real) ^ 400" using a by linarith
  then have "float_limit \<le> (10::real) ^ 400 / 2 ^ 20"
    by (simp add: pos_le_divide_eq)
  then show ?thesis by simp
qed

lemma report_progress_overflow:
  assumes "float_limit \<le> \<bar>real_of_int r / real_of_int (1024 * 1024)\<bar>"
  shows "report_progress dl r s st = (Inl OverflowError, log_report dl r s st)"
proof -
  have "py_int_truediv r (1024 * 1024) = Inl OverflowError"
    using assms by (simp add: py_int_truediv_def)
  then have "progress_message p dl r s = Inl OverflowError" for p
    by (simp add: progress_message_def py_truediv_def)
  then show ?thesis
    by (simp add: report_progress_def progress_percent_value Let_def)
qed

text \<open>
  C4. The claim is not what the code does when the declared length is beyond the float
  range. The server declares \<open>10^400\<close> bytes and sends an empty body; no file exists
  before the call. The size resolves to \<open>10^400\<close>, the stream ends normally with 0 bytes
  received, so the byte count differs from the resolved size. The final progress
  report runs before the comparison and its conversion of the size to megabytes raises
  \<open>OverflowError\<close>: \<open>download\<close> fails with that error wrapped as a download error, not
  with the exception for an incomplete download. No rename happens and the temporary
  file stays on disk.
\<close>

theorem download_huge_length_overflow:
  "fst (get_remote_size huge_env (get_download_url (model_info demo_downloader))
          (initial_state Map.empty)) = Inr (10 ^ 400)
   \<and> get_response huge_env
        (request_headers (resume_offset demo_downloader huge_env True
                            (files (initial_state Map.empty)))) = Get_ok [] Stream_ends
   \<and> resume_offset demo_downloader huge_env True (files (initial_state Map.empty))
        + chunks_len [] = 0
   \<and> fst (download demo_downloader huge_env True (initial_state Map.empty)) =
        Inl (Download_error OverflowError)
   \<and> \<not> is_IncompleteTransferError (Download_error OverflowError)
   \<and> filter is_rename
        (trace (snd (download demo_downloader huge_env True (initial_state Map.empty)))) = []
   \<and> files (snd (download demo_downloader huge_env True (initial_state Map.empty)))
        (temp_path demo_downloader) = Some []"
proof -
  let ?st = "initial_state Map.empty"
  let ?url = "get_download_url (model_info demo_downloader)"
  define r :: int where "r = 10 ^ 400"
  have sz: "fst (get_remote_size huge_env ?url ?st) = Inr r"
    by (simp add: get_remote_size_def huge_env_def huge_length_def py_int_power_of_ten r_def)
  have nz: "r \<noteq> 0"
    by (simp add: r_def)
  have nf: "\<not> final_matches demo_downloader r (files ?st)"
    by (simp add: final_matches_def initial_state_def)
  have ro: "resume_offset demo_downloader huge_env True (files ?st) = 0"
    by (simp add: resume_offset_def temp_size_def initial_state_def)
  have dp: "\<not> discards_partial demo_downloader huge_env True (files ?st)"
    by (simp add: discards_partial_def temp_size_def initial_state_def)
  obtain st4 where s4:
    "download demo_downloader huge_env True ?st = transfer demo_downloader huge_env ?url r 0 st4"
    "trace st4 = trace ?st @ prelude_events demo_downloader huge_env True (files ?st)"
    "files st4 = files ?st"
    using download_reaches_transfer [OF sz nz nf, of True] ro dp by auto
  have ov: "report_progress 0 r 0 st = (Inl OverflowError, log_report 0 r 0 st)" for st
    using huge_ratio unfolding r_def [symmetric] by (rule report_progress_overflow)
  have tr: "transfer demo_downloader huge_env ?url r 0 st4 =
      (Inl (Download_error OverflowError),
       log_report 0 r 0
         (close_file (temp_path demo_downloader)
            (open_file (temp_path demo_downloader) WB
               (emit (NetGet ?url (request_headers 0))
                  ((emit ClockRead st4)
                     \<lparr>start_time := Some (time_at_start huge_env),
                        last_downloaded_bytes := 0\<rparr>)))))"
    by (simp add: transfer_def Let_def huge_env_def ov)
  have f4: "files st4 = Map.empty"
    using s4(3) by (simp add: initial_state_def)
  have t4: "filter is_rename (trace st4) = []"
    using s4(2) prelude_events_kinds(2) [of demo_downloader huge_env True "files ?st"]
    by (simp add: initial_state_def)
  have fl: "files (snd (download demo_downloader huge_env True ?st))
              (temp_path demo_downloader) = Some []"
    unfolding s4(1) tr by (simp add: open_file_def close_file_def emit_def f4)
  have rn: "filter is_rename (trace (snd (download demo_downloader huge_env True ?st))) = []"
    unfolding s4(1) tr by (simp add: open_file_def close_file_def emit_def t4)
  have gr: "get_response huge_env (request_headers 0) = Get_ok [] Stream_ends"
    by (simp add: huge_env_def)
  have res: "fst (download demo_downloader huge_env True ?st) =
      Inl (Download_error OverflowError)"
    unfolding s4(1) tr by simp
  show ?thesis
    using sz [unfolded r_def] fl rn gr res ro by (simp add: chunks_len_def)
qed

section \<open>Restarting without a range request\<close>

lemma new_log_append [simp]:
  "downloaded_log st' = downloaded_log st @ L \<Longrightarrow> new_log st st' = L"
  by (simp add: new_log_def)

lemma demo_run_trace:
  "trace (snd (download demo_downloader (demo_env (Some ''16'') None) True
                 (initial_state Map.empty))) =
     [NetHead ''https://huggingface.co/org/repo/resolve/main/m.gguf'',
      Callback 0 (Starting_download ''M''),
      FileExists ''out/m.gguf'',
      FileExists ''out/m.gguf.download'',
      ClockRead,
      NetGet ''https://huggingface.co/org/repo/resolve/main/m.gguf''
        [(''User-Agent'', ''Mozilla/5.0'')],
      FileOpen ''out/m.gguf.download'' WB,
      FileWrite ''out/m.gguf.download'' [1, 2, 3, 4],
      ClockRead,
      Callback 25 (Progress_speed 25 (1 / 262144) (1 / 65536) 4 (Eta_seconds (3 / 1048576))),
      FileWrite ''out/m.gguf.download'' [5, 6, 7, 8, 9, 10, 11, 12, 13, 14, 15, 16],
      ClockRead,
      Callback 100 (Progress_speed 100 (1 / 65536) (1 / 65536) 8 (Eta_seconds 0)),
      FileClose ''out/m.gguf.download'',
      Callback 100 (Progress 100 (1 / 65536) (1 / 65536)),
      FileRename ''out/m.gguf.download'' ''out/m.gguf'',
      Callback 100 (Download_complete ''out/m.gguf'')]"
  by (simp add: model_defs demo_defs py_int_defs)









section \<open>The callbacks at both ends\<close>

lemma callback_percents_simps [simp]:
  "callback_percents [] = []"
  "callback_percents (Callback p m # evs) = p # callback_percents evs"
  "callback_percent e = None \<Longrightarrow> callback_percents (e # evs) = callback_percents evs"
  "callback_percents (evs @ evs') = callback_percents evs @ callback_percents evs'"
  by (simp_all add: callback_percents_def List.map_filter_def)

text \<open>
  C6. Every invocation of \<open>download\<close> that returns a path has invoked the callback at
  least twice: the first event after the HEAD request is the callback with percent 0,
  before any GET request and any write, and the last event of the invocation is a
  callback with percent 100, after every write. This does not depend on the clock
  readings that throttle the reports inside the loop.
\<close>

theorem download_success_callbacks:
  fixes mi dir
  defines "d \<equiv> ModelDownloader_init mi dir"
  assumes "fst (download d env resume st) = Inr p"
  shows "(\<exists>rest m.
            new_events st (snd (download d env resume st)) =
              NetHead (get_download_url (model_info d))
                # Callback 0 (Starting_download (display_name (model_info d)))
                # rest @ [Callback 100 m])
     \<and> 2 \<le> length (callback_percents (new_events st (snd (download d env resume st))))
     \<and> hd (callback_percents (new_events st (snd (download d env resume st)))) = 0
     \<and> last (callback_percents (new_events st (snd (download d env resume st)))) = 100"
proof -
  let ?url = "get_download_url (model_info d)"
  let ?new = "new_events st (snd (download d env resume st))"
  have ne: "temp_path d \<noteq> final_path d"
    unfolding d_def by (rule init_paths_differ)
  have "\<exists>rest m. ?new =
          NetHead ?url # Callback 0 (Starting_download (display_name (model_info d)))
            # rest @ [Callback 100 m]"
    using ne
  proof (cases rule: download_cases [where env = env and resume = resume and st = st])
    case (no_size e)
    with assms(2) show ?thesis by simp
  next
    case (short_circuit r)
    have "?new = NetHead ?url # Callback 0 (Starting_download (display_name (model_info d)))
            # [FileExists (final_path d), FileExists (final_path d), FileStat (final_path d)]
            @ [Callback 100 (Model_already_downloaded (final_path d))]"
      using short_circuit(4) by (simp add: short_circuit_events_def)
    then show ?thesis by blast
  next
    case (get_raises r st')
    with assms(2) show ?thesis by simp
  next
    case (streamed r chunks fin res st' evs tail n L R)
    let ?k = "resume_offset d env resume (files st)"
    have "res = Inr p"
      using streamed(5) assms(2) by simp
    then obtain q m where tl:
      "tail = [Callback q m, FileRename (temp_path d) (final_path d),
               Callback 100 (Download_complete (final_path d))]"
      using streamed(13) by auto
    have "?new = NetHead ?url # Callback 0 (Starting_download (display_name (model_info d)))
            # (existing_events d (files st) @ partial_events d env ?url resume (files st)
               @ [ClockRead, NetGet ?url (request_headers ?k),
                  FileOpen (temp_path d) (if ?k > 0 then AB else WB)]
               @ evs
               @ [FileClose (temp_path d), Callback q m,
                  FileRename (temp_path d) (final_path d)])
            @ [Callback 100 (Download_complete (final_path d))]"
      using streamed(5,6) tl
      by (simp add: prelude_events_def)
    then show ?thesis by blast
  qed
  then obtain rest m where new:
    "?new = NetHead ?url # Callback 0 (Starting_download (display_name (model_info d)))
            # rest @ [Callback 100 m]"
    by blast
  have "callback_percents ?new = 0 # callback_percents rest @ [100]"
    unfolding new by simp
  then have "2 \<le> length (callback_percents ?new)"
    "hd (callback_percents ?new) = 0" "last (callback_percents ?new) = 100"
    by simp_all
  with new show ?thesis by blast
qed

theorem download_success_callbacks_witness:
  "fst (download (ModelDownloader_init demo_info ''out'') (demo_env (Some ''16'') None) True
          (initial_state Map.empty)) = Inr ''out/m.gguf''
   \<and> hd (callback_percents
        (new_events (initial_state Map.empty)
           (snd (download (ModelDownloader_init demo_info ''out'')
                   (demo_env (Some ''16'') None) True (initial_state Map.empty))))) = 0
   \<and> last (callback_percents
        (new_events (initial_state Map.empty)
           (snd (download (ModelDownloader_init demo_info ''out'')
                   (demo_env (Some ''16'') None) True (initial_state Map.empty))))) = 100"
proof -
  let ?d = "ModelDownloader_init demo_info ''out''"
  let ?env = "demo_env (Some ''16'') None"
  let ?st = "initial_state Map.empty"
  have ok: "fst (download ?d ?env True ?st) = Inr ''out/m.gguf''"
    by (simp add: model_defs demo_defs py_int_defs)
  from download_success_callbacks [OF ok] ok show ?thesis by blast
qed

section \<open>The counter of downloaded bytes\<close>

text \<open>
  C7 (as amended). The log of the values taken by the counter \<open>downloaded\<close> during one
  invocation: in a resumed attempt its first value is the size of the temporary file
  and the GET request asks for the range from that offset; the counter never decreases,
  except that an invocation which discards a non-empty temporary file (resume not
  requested, or ranges not supported) resets it once from that file's size to 0, after
  which it never decreases.
\<close>

theorem downloaded_counter_history:
  fixes mi dir
  defines "d \<equiv> ModelDownloader_init mi dir"
  shows "(\<not> discards_partial d env resume (files st) \<longrightarrow>
            sorted (new_log st (snd (download d env resume st))))
     \<and> (discards_partial d env resume (files st) \<longrightarrow>
            new_log st (snd (download d env resume st)) = []
            \<or> (\<exists>L. new_log st (snd (download d env resume st)) =
                      temp_size d (files st) # 0 # L
                    \<and> sorted (0 # L)))
     \<and> (resume \<and> range_supported env \<and> temp_size d (files st) > 0
          \<and> new_log st (snd (download d env resume st)) \<noteq> [] \<longrightarrow>
            hd (new_log st (snd (download d env resume st))) = temp_size d (files st)
            \<and> NetGet (get_download_url (model_info d))
                 (request_headers (temp_size d (files st)))
                \<in> set (new_events st (snd (download d env resume st))))"
proof -
  let ?k = "resume_offset d env resume (files st)"
  let ?log = "new_log st (snd (download d env resume st))"
  let ?new = "new_events st (snd (download d env resume st))"
  let ?get = "NetGet (get_download_url (model_info d)) (request_headers ?k)"
  have ne: "temp_path d \<noteq> final_path d"
    unfolding d_def by (rule init_paths_differ)
  have shape: "?log = [] \<or>
      (\<exists>L. ?log = prelude_log d env resume (files st) @ L \<and> sorted (?k # L)
          \<and> ?get \<in> set ?new)"
    using ne
  proof (cases rule: download_cases [where env = env and resume = resume and st = st])
    case (no_size e)
    then show ?thesis by (simp add: new_log_def)
  next
    case (short_circuit r)
    then show ?thesis by (simp add: new_log_def)
  next
    case (get_raises r st')
    have "?log = prelude_log d env resume (files st) @ []"
      using get_raises(5,8) by simp
    moreover have "?get \<in> set ?new"
      using get_raises(5,6) by simp
    ultimately show ?thesis by (intro disjI2 exI [of _ "[]"]) simp
  next
    case (streamed r chunks fin res st' evs tail n L R)
    have "?log = prelude_log d env resume (files st) @ L"
      using streamed(5,9) by simp
    moreover have "?get \<in> set ?new"
      using streamed(5,6) by simp
    ultimately show ?thesis using streamed(10) by blast
  qed
  have a: "sorted ?log" if "\<not> discards_partial d env resume (files st)"
    using shape that by (auto simp: prelude_log_def)
  have b: "?log = [] \<or> (\<exists>L. ?log = temp_size d (files st) # 0 # L \<and> sorted (0 # L))"
    if dp: "discards_partial d env resume (files st)"
  proof -
    have "?k = 0" using dp by (auto simp: discards_partial_def resume_offset_def)
    with shape dp show ?thesis by (auto simp: prelude_log_def)
  qed
  have c: "hd ?log = temp_size d (files st)
        \<and> NetGet (get_download_url (model_info d)) (request_headers (temp_size d (files st)))
            \<in> set ?new"
    if r: "resume \<and> range_supported env \<and> temp_size d (files st) > 0 \<and> ?log \<noteq> []"
  proof -
    have k: "?k = temp_size d (files st)" using r by (simp add: resume_offset_def)
    have nd: "\<not> discards_partial d env resume (files st)"
      using r by (simp add: discards_partial_def)
    from shape r obtain L where "?log = prelude_log d env resume (files st) @ L"
      "?get \<in> set ?new" by blast
    then show ?thesis using nd k by (simp add: prelude_log_def)
  qed
  from a b c show ?thesis by blast
qed

theorem downloaded_counter_history_witness:
  "new_log (initial_state [''out/m.gguf.download'' \<mapsto> [9, 9]])
     (snd (download (ModelDownloader_init demo_info ''out'')
             (demo_env (Some ''18'') (Some ''bytes'')) True
             (initial_state [''out/m.gguf.download'' \<mapsto> [9, 9]]))) = [2, 6, 18]
   \<and> sorted (new_log (initial_state [''out/m.gguf.download'' \<mapsto> [9, 9]])
       (snd (download (ModelDownloader_init demo_info ''out'')
               (demo_env (Some ''18'') (Some ''bytes'')) True
               (initial_state [''out/m.gguf.download'' \<mapsto> [9, 9]]))))
   \<and> hd (new_log (initial_state [''out/m.gguf.download'' \<mapsto> [9, 9]])
       (snd (download (ModelDownloader_init demo_info ''out'')
               (demo_env (Some ''18'') (Some ''bytes'')) True
               (initial_state [''out/m.gguf.download'' \<mapsto> [9, 9]])))) =
       temp_size (ModelDownloader_init demo_info ''out'')
         (files (initial_state [''out/m.gguf.download'' \<mapsto> [9, 9]]))
   \<and> (\<exists>L. new_log (initial_state [''out/m.gguf.download'' \<mapsto> [9, 9]])
       (snd (download (ModelDownloader_init demo_info ''out'')
               (demo_env (Some ''18'') (Some ''bytes'')) False
               (initial_state [''out/m.gguf.download'' \<mapsto> [9, 9]]))) = 2 # 0 # L
         \<and> sorted (0 # L))"
proof -
  let ?d = "ModelDownloader_init demo_info ''out''"
  let ?env = "demo_env (Some ''18'') (Some ''bytes'')"
  let ?st = "initial_state [''out/m.gguf.download'' \<mapsto> [9, 9]]"
  have ts: "temp_size ?d (files ?st) = 2"
    by (simp add: temp_size_def demo_defs)
  have rs: "range_supported ?env"
    by (simp add: range_supported_def demo_env_def)
  have nd: "\<not> discards_partial ?d ?env True (files ?st)"
    using rs by (simp add: discards_partial_def)
  have dp: "discards_partial ?d ?env False (files ?st)"
    using ts by (simp add: discards_partial_def)
  have log1: "new_log ?st (snd (download ?d ?env True ?st)) = [2, 6, 18]"
    by (simp add: new_log_def model_defs demo_defs py_int_defs str_int_def)
  have log2: "new_log ?st (snd (download ?d ?env False ?st)) \<noteq> []"
    by (simp add: new_log_def model_defs demo_defs py_int_defs str_int_def)
  from downloaded_counter_history
    [where mi = demo_info and dir = "''out''" and env = ?env and resume = True and st = ?st] nd rs ts log1
  have p1: "sorted (new_log ?st (snd (download ?d ?env True ?st)))"
    "hd (new_log ?st (snd (download ?d ?env True ?st))) = temp_size ?d (files ?st)"
    by simp_all
  from downloaded_counter_history
    [where mi = demo_info and dir = "''out''" and env = ?env and resume = False and st = ?st] dp log2 ts
  have p2: "\<exists>L. new_log ?st (snd (download ?d ?env False ?st)) = 2 # 0 # L \<and> sorted (0 # L)"
    by simp
  from log1 p1 p2 show ?thesis by blast
qed

theorem downloaded_counter_reset_counterexample:
  "downloaded_log
     (snd (download (ModelDownloader_init demo_info ''out'')
             (demo_env (Some ''16'') (Some ''bytes'')) False
             (initial_state [''out/m.gguf.download'' \<mapsto> [9, 9]]))) = [2, 0, 4, 16]
   \<and> \<not> sorted
       (downloaded_log
          (snd (download (ModelDownloader_init demo_info ''out'')
                  (demo_env (Some ''16'') (Some ''bytes'')) False
                  (initial_state [''out/m.gguf.download'' \<mapsto> [9, 9]]))))"
proof -
  have "downloaded_log
     (snd (download (ModelDownloader_init demo_info ''out'')
             (demo_env (Some ''16'') (Some ''bytes'')) False
             (initial_state [''out/m.gguf.download'' \<mapsto> [9, 9]]))) = [2, 0, 4, 16]"
    by (simp add: model_defs demo_defs py_int_defs str_int_def)
  then show ?thesis by simp
qed

section \<open>The reported speed\<close>

lemma new_reports_append [simp]:
  "report_log st' = report_log st @ R \<Longrightarrow> new_reports st st' = R"
  by (simp add: new_reports_def)

lemma new_reports_same [simp]:
  "report_log st' = report_log st \<Longrightarrow> new_reports st st' = []"
  by (simp add: new_reports_def)

text \<open>
  C2 (as amended). The reports made by an invocation, in order, with the arguments
  handed to the reporter. When the GET request answers, they are the reports of
  \<open>average_reports\<close> followed by the final report: one report at each non-empty chunk
  that arrives at least one second after the previous report, with as speed the bytes
  received since the transfer of this invocation began divided by the time elapsed
  since it began (0 when no time has elapsed), and after the end of the stream one
  report with speed 0. This is the average over the whole transfer so far, not over
  the interval since the previous report. In every run the reports made are a prefix
  of that list, and the whole list when the sizes are in the float range. An
  invocation that sends no GET request, or whose GET request raises, makes no report.
  Every report that succeeds invokes the callback once, with a message that shows the
  speed handed over when it is positive and no speed otherwise.
\<close>

theorem progress_reports_are_transfer_averages:
  fixes mi dir
  defines "d \<equiv> ModelDownloader_init mi dir"
  shows "(fst (get_remote_size env (get_download_url (model_info d)) st) = Inr r \<and> r \<noteq> 0
          \<and> \<not> final_matches d r (files st)
          \<and> get_response env (request_headers (resume_offset d env resume (files st))) =
              Get_ok chunks fin \<longrightarrow>
            prefix (new_reports st (snd (download d env resume st)))
              (average_reports (time_at_start env) (resume_offset d env resume (files st)) r
                 (last_progress_time st) (resume_offset d env resume (files st)) chunks
               @ [(resume_offset d env resume (files st) + chunks_len chunks, r, 0)])
          \<and> (sizes_fit_float r (resume_offset d env resume (files st)) (chunks_len chunks) \<longrightarrow>
                new_reports st (snd (download d env resume st)) =
                  average_reports (time_at_start env) (resume_offset d env resume (files st)) r
                    (last_progress_time st) (resume_offset d env resume (files st)) chunks
                  @ (case fin of
                       Stream_ends \<Rightarrow>
                         [(resume_offset d env resume (files st) + chunks_len chunks, r, 0)]
                     | Stream_raises \<Rightarrow> [])))
     \<and> ((\<forall>r'. fst (get_remote_size env (get_download_url (model_info d)) st) = Inr r' \<longrightarrow>
                r' = 0 \<or> final_matches d r' (files st))
          \<or> get_response env (request_headers (resume_offset d env resume (files st))) =
              Get_raises \<longrightarrow>
            new_reports st (snd (download d env resume st)) = [])
     \<and> (\<forall>u st1. report_progress dl tot s st0 = (Inr u, st1) \<longrightarrow>
            report_log st1 = report_log st0 @ [(dl, tot, s)]
            \<and> (\<exists>p m. trace st1 = trace st0 @ [Callback p m]
                  \<and> message_speed m = speed_shown s))"
proof (intro conjI impI allI; (elim conjE)?)
  let ?url = "get_download_url (model_info d)"
  let ?k = "resume_offset d env resume (files st)"
  let ?st' = "snd (download d env resume st)"
  have ne: "temp_path d \<noteq> final_path d"
    unfolding d_def by (rule init_paths_differ)
  {
    fix u st1
    assume rp: "report_progress dl tot s st0 = (Inr u, st1)"
    from report_progress_cases [of dl tot s st0] rp
    obtain m where m:
      "st1 = progress_callback (if tot > 0 then of_int dl / of_int tot * 100 else 0) m
               (log_report dl tot s st0)"
      "message_speed m = speed_shown s"
      by auto
    show "report_log st1 = report_log st0 @ [(dl, tot, s)]"
      unfolding m(1) by (simp add: log_report_def)
    show "\<exists>p m. trace st1 = trace st0 @ [Callback p m] \<and> message_speed m = speed_shown s"
      unfolding m(1) using m(2) by (auto simp: progress_callback_def emit_def log_report_def)
  }
  {
    assume a: "fst (get_remote_size env ?url st) = Inr r" "r \<noteq> 0"
      "\<not> final_matches d r (files st)"
      "get_response env (request_headers ?k) = Get_ok chunks fin"
    from download_stream_shape [OF a ne]
    obtain res st' R where run:
      "download d env resume st = (res, st')"
      "report_log st' = report_log st @ R"
      "prefix R
         (average_reports (time_at_start env) ?k r (last_progress_time st) ?k chunks
          @ [(?k + chunks_len chunks, r, 0)])"
      "sizes_fit_float r ?k (chunks_len chunks) \<longrightarrow>
         R = average_reports (time_at_start env) ?k r (last_progress_time st) ?k chunks
             @ (case fin of Stream_ends \<Rightarrow> [(?k + chunks_len chunks, r, 0)]
                | Stream_raises \<Rightarrow> [])"
      by blast
    have nr: "new_reports st ?st' = R"
      using run(1,2) by simp
    show "prefix (new_reports st ?st')
         (average_reports (time_at_start env) ?k r (last_progress_time st) ?k chunks
          @ [(?k + chunks_len chunks, r, 0)])"
      unfolding nr by (rule run(3))
    show "new_reports st ?st' =
         average_reports (time_at_start env) ?k r (last_progress_time st) ?k chunks
         @ (case fin of Stream_ends \<Rightarrow> [(?k + chunks_len chunks, r, 0)]
            | Stream_raises \<Rightarrow> [])"
      if "sizes_fit_float r ?k (chunks_len chunks)"
      unfolding nr using run(4) that by blast
  }
  assume b: "(\<forall>r'. fst (get_remote_size env ?url st) = Inr r' \<longrightarrow>
                r' = 0 \<or> final_matches d r' (files st))
          \<or> get_response env (request_headers ?k) = Get_raises"
  from ne show "new_reports st ?st' = []"
  proof (cases rule: download_cases [where env = env and resume = resume and st = st])
    case (no_size e)
    then show ?thesis by simp
  next
    case (short_circuit r)
    then show ?thesis by simp
  next
    case (get_raises r st')
    then show ?thesis by simp
  next
    case (streamed r chunks fin res st' evs tail n L R)
    with b show ?thesis by auto
  qed
qed

theorem progress_reports_are_transfer_averages_witness:
  "new_reports (initial_state Map.empty)
     (snd (download (ModelDownloader_init demo_info ''out'') (demo_env (Some ''16'') None) True
             (initial_state Map.empty))) = [(4, 16, 4), (16, 16, 8), (16, 16, 0)]
   \<and> new_reports (initial_state Map.empty)
       (snd (download (ModelDownloader_init demo_info ''out'') (demo_env (Some ''3'') None) True
               (initial_state [''out/m.gguf'' \<mapsto> [1, 2, 3]]))) = []"
proof -
  let ?d = "ModelDownloader_init demo_info ''out''"
  let ?env = "demo_env (Some ''16'') None"
  let ?st = "initial_state Map.empty"
  have sz: "fst (get_remote_size ?env (get_download_url (model_info ?d)) ?st) = Inr 16"
    by (rule demo_size)
  have nm: "\<not> final_matches ?d 16 (files ?st)"
    by (simp add: final_matches_def demo_defs)
  have k: "resume_offset ?d ?env True (files ?st) = 0"
    by (simp add: resume_offset_def temp_size_def demo_defs)
  have gt: "get_response ?env (request_headers 0) = Get_ok demo_chunks Stream_ends"
    by (simp add: demo_env_def)
  have cl: "chunks_len demo_chunks = 16"
    by (simp add: chunks_len_def demo_chunks_def)
  have fit: "sizes_fit_float 16 0 16"
    by (simp add: sizes_fit_float_def float_limit_def)
  have av: "average_reports 100 0 16 0 0 demo_chunks = [(4, 16, 4), (16, 16, 8)]"
    by (simp add: demo_chunks_def average_speed_def)
  have t0: "time_at_start ?env = 100" "last_progress_time ?st = 0"
    by (simp_all add: demo_env_def initial_state_def)
  have one: "new_reports ?st (snd (download ?d ?env True ?st)) =
      [(4, 16, 4), (16, 16, 8), (16, 16, 0)]"
    using progress_reports_are_transfer_averages
      [where mi = demo_info and dir = "''out''" and env = ?env and resume = True and st = ?st
         and r = 16 and chunks = demo_chunks and fin = Stream_ends]
      sz nm gt fit
    unfolding k cl t0 av by simp
  let ?st2 = "initial_state [''out/m.gguf'' \<mapsto> [1, 2, 3]]"
  let ?env2 = "demo_env (Some ''3'') None"
  have sz2: "fst (get_remote_size ?env2 (get_download_url (model_info ?d)) ?st2) = Inr 3"
    by (rule demo_size)
  have fm: "final_matches ?d 3 (files ?st2)"
    by (simp add: final_matches_def demo_defs)
  have two: "new_reports ?st2 (snd (download ?d ?env2 True ?st2)) = []"
    using progress_reports_are_transfer_averages
      [where mi = demo_info and dir = "''out''" and env = ?env2 and resume = True and st = ?st2]
      sz2 fm
    by simp
  have "report_log ?st2 = report_log ?st"
    by (simp add: initial_state_def)
  then have "new_reports ?st (snd (download ?d ?env2 True ?st2)) =
      new_reports ?st2 (snd (download ?d ?env2 True ?st2))"
    by (simp add: new_reports_def)
  with one two show ?thesis by simp
qed

theorem progress_speed_window_counterexample:
  "reported_speeds
     (trace (snd (download demo_downloader (demo_env (Some ''16'') None) True
                    (initial_state Map.empty)))) = [4, 8]
   \<and> spec_window_speed (16 - 4) (102 - 101) = 3 / 262144
   \<and> reported_speeds
       (trace (snd (download demo_downloader (demo_env (Some ''16'') None) True
                      (initial_state Map.empty)))) ! 1
       \<noteq> spec_window_speed (16 - 4) (102 - 101)
   \<and> reported_speeds
       (trace (snd (download demo_downloader (demo_env (Some ''16'') None) True
                      (initial_state Map.empty)))) ! 1
       \<noteq> of_int (16 - 4) / (102 - 101)"
  by (simp add: demo_run_trace reported_speeds_def List.map_filter_def spec_window_speed_def)

section \<open>The checksum\<close>

lemma calculate_checksum_value:
  "fst (calculate_checksum hashlib_new d algorithm st) =
     (case files st (final_path d) of
        None \<Rightarrow> Inl File_not_downloaded
      | Some content \<Rightarrow>
          (case hashlib_new algorithm of
             None \<Rightarrow> Inl ValueError
           | Some hash_func \<Rightarrow>
               Inr (h_hexdigest hash_func
                      (foldl (h_update hash_func) (h_init hash_func)
                         (read_chunks 8192 content)))))"
  by (simp add: calculate_checksum_def path_exists_def split: option.splits)

lemma calculate_checksum_files:
  "files (snd (calculate_checksum hashlib_new d algorithm st)) = files st"
  by (simp add: calculate_checksum_def path_exists_def split: option.splits)

text \<open>
  C8. The digest that \<open>calculate_checksum\<close> returns depends only on the algorithm and
  on the content of the final file: two invocations in states that agree on the final
  file return the same result, and since an invocation changes no file, a second
  invocation right after the first returns the same hex digest. It fails when the final
  file does not exist.
\<close>

theorem checksum_deterministic:
  "(files st1 (final_path d) = files st2 (final_path d) \<longrightarrow>
      fst (calculate_checksum hashlib_new d algorithm st1) =
      fst (calculate_checksum hashlib_new d algorithm st2))
   \<and> files (snd (calculate_checksum hashlib_new d algorithm st)) = files st
   \<and> fst (calculate_checksum hashlib_new d algorithm
            (snd (calculate_checksum hashlib_new d algorithm st))) =
       fst (calculate_checksum hashlib_new d algorithm st)
   \<and> (files st (final_path d) = None \<longrightarrow>
        fst (calculate_checksum hashlib_new d algorithm st) = Inl File_not_downloaded)
   \<and> (files st (final_path d) = Some content \<and> hashlib_new algorithm = Some hash_func \<longrightarrow>
        fst (calculate_checksum hashlib_new d algorithm st) =
          Inr (h_hexdigest hash_func
                 (foldl (h_update hash_func) (h_init hash_func) (read_chunks 8192 content))))"
  by (simp add: calculate_checksum_value calculate_checksum_files)

theorem checksum_deterministic_witness:
  "fst (calculate_checksum demo_hashlib demo_downloader ''sum8''
          (initial_state [''out/m.gguf'' \<mapsto> [1, 2, 250]])) = Inr ''fd''
   \<and> fst (calculate_checksum demo_hashlib demo_downloader ''sum8''
            ((initial_state [''out/m.gguf'' \<mapsto> [1, 2, 250]])\<lparr>last_progress_time := 7\<rparr>)) =
       Inr ''fd''
   \<and> fst (calculate_checksum demo_hashlib demo_downloader ''sum8''
            (initial_state Map.empty)) = Inl File_not_downloaded"
proof -
  let ?st = "initial_state [''out/m.gguf'' \<mapsto> [1, 2, 250]]"
  have f: "files ?st (final_path demo_downloader) = Some [1, 2, 250]"
    "files (?st\<lparr>last_progress_time := 7\<rparr>) (final_path demo_downloader) =
       files ?st (final_path demo_downloader)"
    "files (initial_state Map.empty) (final_path demo_downloader) = None"
    by (simp_all add: demo_defs)
  have h: "demo_hashlib ''sum8'' =
     Some \<lparr> h_init = 0,
            h_update = (\<lambda>h chunk. h + sum_list chunk),
            h_hexdigest = (\<lambda>h. [''0123456789abcdef'' ! (unat h div 16),
                                  ''0123456789abcdef'' ! (unat h mod 16)]) \<rparr>"
    by (simp add: demo_hashlib_def)
  have v: "fst (calculate_checksum demo_hashlib demo_downloader ''sum8'' ?st) = Inr ''fd''"
    using checksum_deterministic
      [where st = ?st and d = demo_downloader and content = "[1, 2, 250]"
         and hashlib_new = demo_hashlib and algorithm = "''sum8''"] f(1) h
    by simp
  from checksum_deterministic
      [where ?st1.0 = "?st\<lparr>last_progress_time := 7\<rparr>" and ?st2.0 = ?st
         and d = demo_downloader and hashlib_new = demo_hashlib and algorithm = "''sum8''"
         and st = "initial_state Map.empty"]
    f(2,3) v
  show ?thesis by simp
qed

section \<open>The copy of the catalog\<close>

lemma mutate_frame:
  "a \<noteq> r \<Longrightarrow> objs (mutate r op h) a = objs h a"
  by (simp add: mutate_def split: option.splits pyobj.splits)

lemma fold_mutate_frame:
  "a \<noteq> r \<Longrightarrow> objs (fold (mutate r) ops h) a = objs h a"
  by (induction ops arbitrary: h) (simp_all add: mutate_frame)

lemma get_model_info_cong:
  "objs h' RECOMMENDED_MODELS = objs h RECOMMENDED_MODELS \<Longrightarrow>
     get_model_info key h' = get_model_info key h"
  by (simp add: get_model_info_def)

text \<open>
  C10. \<open>list_available_models\<close> returns a new dictionary object with the items of the
  catalog. Whatever sequence of dictionary mutations is applied to the returned object,
  the catalog object and every other object of the store are as before, so
  \<open>get_model_info\<close> answers as before for every key and another call of
  \<open>list_available_models\<close> returns the items of the original catalog.
\<close>

theorem list_available_models_returns_copy:
  assumes "objs h RECOMMENDED_MODELS = Some (Dict items)"
      and "objs h (next_addr h) = None"
  shows "\<exists>r h1.
       list_available_models h = (Inr r, h1)
     \<and> r \<noteq> RECOMMENDED_MODELS
     \<and> objs h1 r = Some (Dict items)
     \<and> objs (fold (mutate r) ops h1) RECOMMENDED_MODELS = Some (Dict items)
     \<and> (\<forall>a. a \<noteq> r \<longrightarrow> objs (fold (mutate r) ops h1) a = objs h a)
     \<and> (\<forall>key. get_model_info key (fold (mutate r) ops h1) = get_model_info key h)
     \<and> (\<exists>r' h3.
           list_available_models (fold (mutate r) ops h1) = (Inr r', h3)
         \<and> objs h3 r' = Some (Dict items))"
proof -
  let ?r = "next_addr h"
  let ?h1 = "h\<lparr>objs := (objs h)(?r \<mapsto> Dict items), next_addr := Suc ?r\<rparr>"
  let ?h2 = "fold (mutate ?r) ops ?h1"
  have run: "list_available_models h = (Inr ?r, ?h1)"
    using assms(1) by (simp add: list_available_models_def dict_copy_def)
  have ne: "?r \<noteq> RECOMMENDED_MODELS"
    using assms by auto
  have fr: "objs ?h2 a = objs h a" if "a \<noteq> ?r" for a
    using that by (simp add: fold_mutate_frame)
  have cat: "objs ?h2 RECOMMENDED_MODELS = Some (Dict items)"
    using fr [of RECOMMENDED_MODELS] ne assms(1) by simp
  have gm: "get_model_info key ?h2 = get_model_info key h" for key
    by (rule get_model_info_cong) (use cat assms(1) in simp)
  have again: "\<exists>r' h3. list_available_models ?h2 = (Inr r', h3) \<and> objs h3 r' = Some (Dict items)"
    using cat by (simp add: list_available_models_def dict_copy_def)
  show ?thesis
    using run ne cat fr gm again by (intro exI [of _ ?r] exI [of _ ?h1]) simp
qed

theorem list_available_models_returns_copy_witness:
  "objs class_heap (next_addr class_heap) = None
   \<and> (\<exists>r h1.
        list_available_models class_heap = (Inr r, h1)
      \<and> r \<noteq> RECOMMENDED_MODELS
      \<and> get_model_info ''floppa-12b-q4''
           (fold (mutate r) [DelItem ''floppa-12b-q4'', SetItem ''mine'' 2, Clear] h1) = Inr 1
      \<and> get_model_info ''mine''
           (fold (mutate r) [DelItem ''floppa-12b-q4'', SetItem ''mine'' 2, Clear] h1) =
           Inl (Unknown_model ''mine''))"
proof -
  have c: "objs class_heap RECOMMENDED_MODELS =
      Some (Dict [(''floppa-12b-q4'', 1), (''floppa-12b-q5'', 2), (''floppa-12b-q6'', 3)])"
    by (simp add: class_heap_def RECOMMENDED_MODELS_def)
  have f: "objs class_heap (next_addr class_heap) = None"
    by (simp add: class_heap_def)
  have g: "get_model_info ''floppa-12b-q4'' class_heap = Inr 1"
    "get_model_info ''mine'' class_heap = Inl (Unknown_model ''mine'')"
    by (simp_all add: get_model_info_def c)
  from list_available_models_returns_copy
         [OF c f, of "[DelItem ''floppa-12b-q4'', SetItem ''mine'' 2, Clear]"]
  obtain r h1 where
    "list_available_models class_heap = (Inr r, h1)" "r \<noteq> RECOMMENDED_MODELS"
    "\<forall>key. get_model_info key
             (fold (mutate r) [DelItem ''floppa-12b-q4'', SetItem ''mine'' 2, Clear] h1) =
           get_model_info key class_heap"
    by blast
  with f g show ?thesis by auto
qed

end
